theory Spec2Isabelle
  imports Main "HOL-Library.Code_Target_Nat"
begin

section \<open>JavaScript values and errors\<close>

text \<open>
  The values the engine of \<^verbatim>\<open>src/dist/yatte-browser.js\<close> handles: \<^verbatim>\<open>undefined\<close>,
  \<^verbatim>\<open>null\<close>, booleans, numbers that are integers (those a double holds exactly), strings
  (lists of code units below 256, read as Latin-1), arrays and plain objects (their own
  enumerable properties in the order in which they were added, with distinct keys).
  Fractional numbers, \<^verbatim>\<open>NaN\<close>, code units from 256 on, symbols and objects that override
  \<^verbatim>\<open>toString\<close> are outside the model. Functions are not values of this type: every place
  of the source that receives a function gets a constructor of its own below.
\<close>

datatype jsval =
    Undefined
  | Null
  | Bool bool
  | Num int
  | Str string
  | Arr "jsval list"
  | Obj "(string \<times> jsval) list"

text \<open>A \<^verbatim>\<open>TypeError\<close> of the run time, or whatever a function of the host threw.\<close>

datatype error = TypeError | Thrown jsval

abbreviation LF :: char where
  "LF \<equiv> CHR 0x0A"

abbreviation backslash :: char where
  "backslash \<equiv> CHR 0x5C"

subsection \<open>Conversions\<close>

fun digits :: "nat \<Rightarrow> string" where
  "digits n =
     (if n < 10 then [''0123456789'' ! n]
      else digits (n div 10) @ [''0123456789'' ! (n mod 10)])"

declare digits.simps [simp del]

text \<open>
  \<^verbatim>\<open>Number::toString\<close> on integers. Below \<^verbatim>\<open>2^53\<close> every digit is printed. From there on
  the engine prints the decimal with the fewest significant digits that still reads back
  as the same double, the one nearest to it if there are several, and switches to the
  exponent form when the decimal has more than 21 digits. \<^verbatim>\<open>rounds_to m x\<close>: the integer
  \<^verbatim>\<open>x\<close> lies in the interval of the reals that round to the double \<^verbatim>\<open>m\<close> (half the gap
  to the next double on either side, a quarter below a power of two, the ends included
  when the significand of \<^verbatim>\<open>m\<close> is even).
\<close>

fun bit_length :: "nat \<Rightarrow> nat" where
  "bit_length m = (if m = 0 then 0 else Suc (bit_length (m div 2)))"

declare bit_length.simps [simp del]

definition rounds_to :: "nat \<Rightarrow> nat \<Rightarrow> bool" where
  "rounds_to m x =
     (let e = bit_length m - 53;
          f = m div 2 ^ e;
          up = 2 * 2 ^ e;
          down = (if f = 2 ^ 52 then 2 ^ e else 2 * 2 ^ e)
      in if even f then 4 * m \<le> 4 * x + down \<and> 4 * x \<le> 4 * m + up
         else 4 * m < 4 * x + down \<and> 4 * x < 4 * m + up)"

definition shortest_decimal :: "nat \<Rightarrow> nat" where
  "shortest_decimal m =
     (let p = last (filter (\<lambda>p. rounds_to m (m div 10 ^ p * 10 ^ p)
                               \<or> rounds_to m ((m div 10 ^ p + 1) * 10 ^ p))
                      [0..<Suc (length (digits m))]);
          lo = m div 10 ^ p * 10 ^ p;
          hi = lo + 10 ^ p
      in if rounds_to m lo \<and> rounds_to m hi then
           (if m - lo < hi - m then lo
            else if hi - m < m - lo then hi
            else if even (m div 10 ^ p) then lo else hi)
         else if rounds_to m lo then lo else hi)"

definition exponent_form :: "nat \<Rightarrow> string" where
  "exponent_form x =
     (let ds = digits x;
          s = rev (dropWhile (\<lambda>c. c = CHR ''0'') (rev ds))
      in (if length s = 1 then s else hd s # CHR ''.'' # tl s)
           @ ''e+'' @ digits (length ds - 1))"

definition number_toString :: "int \<Rightarrow> string" where
  "number_toString n =
     (let m = nat \<bar>n\<bar>;
          x = (if m < 9007199254740992 then m else shortest_decimal m);
          ds = digits x;
          printed = (if length ds \<le> 21 then ds else exponent_form x)
      in if n < 0 then CHR ''-'' # printed else printed)"

text \<open>\<^verbatim>\<open>xs.join(sep)\<close> on strings.\<close>

fun join_str :: "string \<Rightarrow> string list \<Rightarrow> string" where
  "join_str sep [] = []"
| "join_str sep [x] = x"
| "join_str sep (x # y # ys) = x @ sep @ join_str sep (y # ys)"

text \<open>
  \<^verbatim>\<open>ToString\<close>, as \<^verbatim>\<open>str + value\<close> applies it to the right operand when the left one is a
  string. An array prints as its elements joined by commas, \<^verbatim>\<open>undefined\<close> and \<^verbatim>\<open>null\<close>
  elements as the empty string.
\<close>

fun toString :: "jsval \<Rightarrow> string" where
  "toString Undefined = ''undefined''"
| "toString Null = ''null''"
| "toString (Bool b) = (if b then ''true'' else ''false'')"
| "toString (Num n) = number_toString n"
| "toString (Str s) = s"
| "toString (Arr xs) =
     join_str '','' (map (\<lambda>x. if x = Undefined \<or> x = Null then [] else toString x) xs)"
| "toString (Obj kvs) = ''[object Object]''"

text \<open>\<^verbatim>\<open>mapped.join(joinChar)\<close> on an array of values.\<close>

definition js_join :: "string \<Rightarrow> jsval list \<Rightarrow> string" where
  "js_join sep xs =
     join_str sep (map (\<lambda>x. if x = Undefined \<or> x = Null then [] else toString x) xs)"

text \<open>The truthiness a conditional expression tests.\<close>

fun truthy :: "jsval \<Rightarrow> bool" where
  "truthy Undefined = False"
| "truthy Null = False"
| "truthy (Bool b) = b"
| "truthy (Num n) = (n \<noteq> 0)"
| "truthy (Str s) = (s \<noteq> [])"
| "truthy (Arr xs) = True"
| "truthy (Obj kvs) = True"

text \<open>\<^verbatim>\<open>xs[i]\<close>: \<^verbatim>\<open>undefined\<close> out of range.\<close>

definition js_nth :: "jsval list \<Rightarrow> nat \<Rightarrow> jsval" where
  "js_nth xs i = (if i < length xs then xs ! i else Undefined)"

text \<open>\<^verbatim>\<open>xs[xs.length - 1]\<close>: index \<^verbatim>\<open>-1\<close> of the empty array is \<^verbatim>\<open>undefined\<close>.\<close>

definition js_last :: "jsval list \<Rightarrow> jsval" where
  "js_last xs = (if xs = [] then Undefined else last xs)"

subsection \<open>String methods\<close>

text \<open>\<^verbatim>\<open>s.split(c)\<close> for a one-character separator: never the empty list.\<close>

fun split_str :: "char \<Rightarrow> string \<Rightarrow> string list" where
  "split_str c [] = [[]]"
| "split_str c (x # xs) =
     (if x = c then [] # split_str c xs
      else (x # hd (split_str c xs)) # tl (split_str c xs))"

text \<open>\<^verbatim>\<open>s.substr(start)\<close> and \<^verbatim>\<open>s.substr(start, len)\<close>.\<close>

definition substr_from :: "string \<Rightarrow> int \<Rightarrow> string" where
  "substr_from s start =
     (let n = int (length s);
          st = (if start < 0 then max (n + start) 0 else min start n)
      in drop (nat st) s)"

definition substr :: "string \<Rightarrow> int \<Rightarrow> int \<Rightarrow> string" where
  "substr s start len =
     (let n = int (length s);
          st = (if start < 0 then max (n + start) 0 else min start n)
      in take (nat (min (max len 0) (n - st))) (drop (nat st) s))"

text \<open>\<^verbatim>\<open>s.startsWith(c)\<close> for a one-character string.\<close>

definition startsWith :: "string \<Rightarrow> char \<Rightarrow> bool" where
  "startsWith s c = (case s of [] \<Rightarrow> False | x # _ \<Rightarrow> x = c)"

text \<open>
  \<^verbatim>\<open>s.search(re)\<close>: the first index at which the regular expression matches, \<^verbatim>\<open>-1\<close> when
  there is none. A regular expression is given by the suffixes of the subject at whose
  head it matches (none of the three of the source looks behind).
\<close>

fun search_from :: "(string \<Rightarrow> bool) \<Rightarrow> nat \<Rightarrow> string \<Rightarrow> int" where
  "search_from re i [] = (if re [] then int i else - 1)"
| "search_from re i (c # cs) = (if re (c # cs) then int i else search_from re (Suc i) cs)"

definition search :: "(string \<Rightarrow> bool) \<Rightarrow> string \<Rightarrow> int" where
  "search re s = search_from re 0 s"

text \<open>The class \<^verbatim>\<open>\s\<close> on one-byte code units.\<close>

definition is_space :: "char \<Rightarrow> bool" where
  "is_space c =
     (c \<in> {CHR 0x09, CHR 0x0A, CHR 0x0B, CHR 0x0C, CHR 0x0D, CHR 0x20, CHR 0xA0})"

text \<open>\<^verbatim>\<open>/[^\n \t]|$/\<close>\<close>

definition re_base_indent :: "string \<Rightarrow> bool" where
  "re_base_indent t =
     (case t of [] \<Rightarrow> True | c # _ \<Rightarrow> c \<notin> {CHR 0x0A, CHR 0x20, CHR 0x09})"

text \<open>\<^verbatim>\<open>/\S|$/\<close>\<close>

definition re_nonspace_or_end :: "string \<Rightarrow> bool" where
  "re_nonspace_or_end t = (case t of [] \<Rightarrow> True | c # _ \<Rightarrow> \<not> is_space c)"

text \<open>\<^verbatim>\<open>/\s(?=\S+$)/\<close>\<close>

definition re_last_token :: "string \<Rightarrow> bool" where
  "re_last_token t =
     (case t of [] \<Rightarrow> False
      | c # r \<Rightarrow> is_space c \<and> r \<noteq> [] \<and> list_all (\<lambda>x. \<not> is_space x) r)"

text \<open>\<^verbatim>\<open>xs.map((x, k) => f(x, k))\<close>\<close>

definition map_index :: "('a \<Rightarrow> nat \<Rightarrow> 'b) \<Rightarrow> 'a list \<Rightarrow> 'b list" where
  "map_index f xs = map (\<lambda>(k, x). f x k) (enumerate 0 xs)"

text \<open>
  \<^verbatim>\<open>s.toUpperCase()\<close>, \<^verbatim>\<open>s.toLowerCase()\<close> and \<^verbatim>\<open>s.trim()\<close> on Latin-1. The sharp s
  becomes \<^verbatim>\<open>SS\<close>; the micro sign and the y with diaeresis, whose capitals are code units
  from 256 on, are outside the model and left as they are.
\<close>

definition latin1_small :: string where
  "latin1_small =
     ''abcdefghijklmnopqrstuvwxyz'' @
     [CHR 0xE0, CHR 0xE1, CHR 0xE2, CHR 0xE3, CHR 0xE4, CHR 0xE5, CHR 0xE6, CHR 0xE7,
      CHR 0xE8, CHR 0xE9, CHR 0xEA, CHR 0xEB, CHR 0xEC, CHR 0xED, CHR 0xEE, CHR 0xEF,
      CHR 0xF0, CHR 0xF1, CHR 0xF2, CHR 0xF3, CHR 0xF4, CHR 0xF5, CHR 0xF6,
      CHR 0xF8, CHR 0xF9, CHR 0xFA, CHR 0xFB, CHR 0xFC, CHR 0xFD, CHR 0xFE]"

definition latin1_capital :: string where
  "latin1_capital =
     ''ABCDEFGHIJKLMNOPQRSTUVWXYZ'' @
     [CHR 0xC0, CHR 0xC1, CHR 0xC2, CHR 0xC3, CHR 0xC4, CHR 0xC5, CHR 0xC6, CHR 0xC7,
      CHR 0xC8, CHR 0xC9, CHR 0xCA, CHR 0xCB, CHR 0xCC, CHR 0xCD, CHR 0xCE, CHR 0xCF,
      CHR 0xD0, CHR 0xD1, CHR 0xD2, CHR 0xD3, CHR 0xD4, CHR 0xD5, CHR 0xD6,
      CHR 0xD8, CHR 0xD9, CHR 0xDA, CHR 0xDB, CHR 0xDC, CHR 0xDD, CHR 0xDE]"

definition toUpperCase :: "string \<Rightarrow> string" where
  "toUpperCase s =
     concat (map (\<lambda>c. if c = CHR 0xDF then ''SS''
                       else case map_of (zip latin1_small latin1_capital) c of
                              Some u \<Rightarrow> [u] | None \<Rightarrow> [c]) s)"

definition toLowerCase :: "string \<Rightarrow> string" where
  "toLowerCase s =
     map (\<lambda>c. case map_of (zip latin1_capital latin1_small) c of
                 Some l \<Rightarrow> l | None \<Rightarrow> c) s"

definition trim :: "string \<Rightarrow> string" where
  "trim s = rev (dropWhile is_space (rev (dropWhile is_space s)))"

text \<open>\<^verbatim>\<open>s.replace(/c/g, r)\<close> for a one-character pattern.\<close>

definition replace_all :: "char \<Rightarrow> string \<Rightarrow> string \<Rightarrow> string" where
  "replace_all c r s = concat (map (\<lambda>x. if x = c then r else [x]) s)"

section \<open>Settings\<close>

text \<open>
  \<^verbatim>\<open>yatte.settings.functions.escapeHTMLFunc\<close> is either the function the source defines,
  which writes to the module constant \<^verbatim>\<open>escape\<close>, or one the host has put in its place.
\<close>

datatype escfun = EscapeDefault | EscapeHost "jsval \<Rightarrow> error + jsval"

text \<open>
  The properties of \<^verbatim>\<open>yatte.settings.format.transform\<close>: the four arrow functions of the
  source, under \<^verbatim>\<open>$\<close>, \<^verbatim>\<open>U\<close>, \<^verbatim>\<open>L\<close> and \<^verbatim>\<open>T\<close>, functions of the host, and values that
  are no functions.
\<close>

datatype xform =
    XEscape
  | XUpper
  | XLower
  | XTrim
  | XHost "jsval \<Rightarrow> error + jsval"
  | XValue jsval

text \<open>
  \<^verbatim>\<open>escape\<close> is the module constant of line 7: \<^verbatim>\<open>None\<close> is \<^verbatim>\<open>null\<close>; \<^verbatim>\<open>Some e\<close> is a
  \<^verbatim>\<open>textarea\<close> element, \<^verbatim>\<open>e v\<close> being its \<^verbatim>\<open>innerHTML\<close> once \<^verbatim>\<open>textContent\<close> has been set
  to \<^verbatim>\<open>v\<close> (the browser's part). \<^verbatim>\<open>transform\<close> holds the registry's own properties (none
  of them under the key \<^verbatim>\<open>__proto__\<close>). \<^verbatim>\<open>native_source\<close> is the engine's part of
  \<^verbatim>\<open>Function.prototype.toString\<close>: the text it prints for a built-in function, given by
  its name.
\<close>

record settings =
  escape :: "(jsval \<Rightarrow> string) option"
  escapeHTMLFunc :: escfun
  indentation :: bool
  transform :: "string \<Rightarrow> xform option"
  native_source :: "string \<Rightarrow> string"

text \<open>Lines 18 to 25: assigning to a property of \<^verbatim>\<open>null\<close> throws.\<close>

definition default_escapeHTMLFunc :: "(jsval \<Rightarrow> string) option \<Rightarrow> jsval \<Rightarrow> error + jsval" where
  "default_escapeHTMLFunc esc html =
     (case esc of
        None \<Rightarrow> Inl TypeError
      | Some textarea \<Rightarrow>
          Inr (Str (replace_all (CHR 0x27) ''&#39;''
                     (replace_all (CHR 0x22) ''&#34;'' (textarea html)))))"

definition call_escapeHTMLFunc :: "settings \<Rightarrow> jsval \<Rightarrow> error + jsval" where
  "call_escapeHTMLFunc cfg html =
     (case escapeHTMLFunc cfg of
        EscapeDefault \<Rightarrow> default_escapeHTMLFunc (escape cfg) html
      | EscapeHost f \<Rightarrow> f html)"

text \<open>
  Lines 38 to 45. A string method called on a value that is not a string throws, and so
  does the call of a property that is no function.
\<close>

fun call_xform :: "settings \<Rightarrow> xform \<Rightarrow> jsval \<Rightarrow> error + jsval" where
  "call_xform cfg XEscape v = call_escapeHTMLFunc cfg v"
| "call_xform cfg XUpper v = (case v of Str s \<Rightarrow> Inr (Str (toUpperCase s)) | _ \<Rightarrow> Inl TypeError)"
| "call_xform cfg XLower v = (case v of Str s \<Rightarrow> Inr (Str (toLowerCase s)) | _ \<Rightarrow> Inl TypeError)"
| "call_xform cfg XTrim v = (case v of Str s \<Rightarrow> Inr (Str (trim s)) | _ \<Rightarrow> Inl TypeError)"
| "call_xform cfg (XHost f) v = f v"
| "call_xform cfg (XValue x) v = Inl TypeError"

subsection \<open>What the registry inherits\<close>

text \<open>
  \<^verbatim>\<open>suffixes[lastToken]\<close> reads a property of an object: where the registry has no property
  of its own under the key, the one of \<^verbatim>\<open>Object.prototype\<close> is found. These are the
  functions every engine has there, after the ECMAScript standard (they are no code of
  this repository), and the accessor \<^verbatim>\<open>__proto__\<close>, which reads as the prototype, an
  object.
\<close>

definition object_prototype_functions :: "string list" where
  "object_prototype_functions =
     [''constructor'', ''hasOwnProperty'', ''isPrototypeOf'', ''propertyIsEnumerable'',
      ''toLocaleString'', ''toString'', ''valueOf'', ''__defineGetter__'',
      ''__defineSetter__'', ''__lookupGetter__'', ''__lookupSetter__'']"

datatype suffix = Entry xform | Inherited string

definition suffix_lookup :: "settings \<Rightarrow> string \<Rightarrow> suffix option" where
  "suffix_lookup cfg key =
     (case transform cfg key of
        Some f \<Rightarrow> Some (Entry f)
      | None \<Rightarrow>
          if key \<in> set object_prototype_functions then Some (Inherited key)
          else if key = ''__proto__'' then Some (Entry (XValue (Obj [])))
          else None)"

text \<open>\<^verbatim>\<open>typeof x === 'function'\<close> and the truthiness of \<^verbatim>\<open>x\<close>, for what a lookup gave.\<close>

definition is_function :: "suffix \<Rightarrow> bool" where
  "is_function x = (case x of Entry (XValue v) \<Rightarrow> False | _ \<Rightarrow> True)"

definition suffix_truthy :: "suffix \<Rightarrow> bool" where
  "suffix_truthy x = (case x of Entry (XValue v) \<Rightarrow> truthy v | _ \<Rightarrow> True)"

definition is_primitive :: "jsval \<Rightarrow> bool" where
  "is_primitive v = (case v of Arr xs \<Rightarrow> False | Obj kvs \<Rightarrow> False | _ \<Rightarrow> True)"

text \<open>
  \<^verbatim>\<open>ToPrimitive\<close> of the registry, as \<^verbatim>\<open>str + value\<close> applies it: the registry's
  \<^verbatim>\<open>valueOf\<close> and then its \<^verbatim>\<open>toString\<close> are called without arguments, where they are
  functions, until one returns a primitive. The inherited \<^verbatim>\<open>valueOf\<close> returns the
  registry, an object; the inherited \<^verbatim>\<open>toString\<close> returns \<^verbatim>\<open>[object Object]\<close>.
\<close>

definition registry_primitive :: "settings \<Rightarrow> error + jsval" where
  "registry_primitive cfg =
     (case (case transform cfg ''valueOf'' of
              None \<Rightarrow> Inr None
            | Some (XValue x) \<Rightarrow> Inr None
            | Some f \<Rightarrow>
                (case call_xform cfg f Undefined of
                   Inl e \<Rightarrow> Inl e
                 | Inr r \<Rightarrow> Inr (if is_primitive r then Some r else None))) of
        Inl e \<Rightarrow> Inl e
      | Inr (Some r) \<Rightarrow> Inr r
      | Inr None \<Rightarrow>
          (case transform cfg ''toString'' of
             None \<Rightarrow> Inr (Str ''[object Object]'')
           | Some (XValue x) \<Rightarrow> Inl TypeError
           | Some g \<Rightarrow>
               (case call_xform cfg g Undefined of
                  Inl e \<Rightarrow> Inl e
                | Inr r \<Rightarrow> if is_primitive r then Inr r else Inl TypeError)))"

text \<open>
  The call \<^verbatim>\<open>suffixes[name](value)\<close> of an inherited function, the registry being the
  receiver. \<^verbatim>\<open>constructor\<close> is \<^verbatim>\<open>Object\<close>: it returns a new object for \<^verbatim>\<open>undefined\<close> and
  \<^verbatim>\<open>null\<close> and otherwise the value as an object, which prints as the value does.
  \<^verbatim>\<open>valueOf\<close> returns the registry itself, given here by the primitive line 118 makes
  of it. \<^verbatim>\<open>__lookupGetter__\<close> and \<^verbatim>\<open>__lookupSetter__\<close> find an accessor only under
  \<^verbatim>\<open>__proto__\<close>, a built-in function that is given here by the text line 118 makes of it.
  \<^verbatim>\<open>__defineGetter__\<close> and \<^verbatim>\<open>__defineSetter__\<close> throw, their second argument being no
  function.
\<close>

definition call_inherited :: "settings \<Rightarrow> string \<Rightarrow> jsval \<Rightarrow> error + jsval" where
  "call_inherited cfg name v =
     (if name = ''constructor'' then Inr (if v = Undefined \<or> v = Null then Obj [] else v)
      else if name = ''hasOwnProperty'' \<or> name = ''propertyIsEnumerable'' then
        Inr (Bool (case transform cfg (toString v) of None \<Rightarrow> False | Some f \<Rightarrow> True))
      else if name = ''isPrototypeOf'' then Inr (Bool False)
      else if name = ''toString'' then Inr (Str ''[object Object]'')
      else if name = ''toLocaleString'' then
        (case transform cfg ''toString'' of
           None \<Rightarrow> Inr (Str ''[object Object]'')
         | Some f \<Rightarrow> call_xform cfg f Undefined)
      else if name = ''valueOf'' then registry_primitive cfg
      else if name = ''__lookupGetter__'' then
        Inr (if toString v = ''__proto__'' then Str (native_source cfg ''get __proto__'')
             else Undefined)
      else if name = ''__lookupSetter__'' then
        Inr (if toString v = ''__proto__'' then Str (native_source cfg ''set __proto__'')
             else Undefined)
      else Inl TypeError)"

fun call_suffix :: "settings \<Rightarrow> suffix \<Rightarrow> jsval \<Rightarrow> error + jsval" where
  "call_suffix cfg (Entry f) v = call_xform cfg f v"
| "call_suffix cfg (Inherited name) v = call_inherited cfg name v"

definition default_transform :: "string \<Rightarrow> xform option" where
  "default_transform =
     map_of [(''$'', XEscape), (''U'', XUpper), (''L'', XLower), (''T'', XTrim)]"

text \<open>How V8 prints a built-in function.\<close>

definition v8_native_source :: "string \<Rightarrow> string" where
  "v8_native_source name = ''function '' @ name @ ''() { [native code] }''"

definition default_settings :: "(jsval \<Rightarrow> string) option \<Rightarrow> settings" where
  "default_settings esc =
     \<lparr>escape = esc, escapeHTMLFunc = EscapeDefault, indentation = True,
      transform = default_transform, native_source = v8_native_source\<rparr>"

text \<open>
  What a browser's \<^verbatim>\<open>textarea\<close> does between the two lines of \<^verbatim>\<open>escapeHTMLFunc\<close>, after the
  DOM and HTML standards (it is no code of this repository): the setter of \<^verbatim>\<open>textContent\<close>
  takes \<^verbatim>\<open>null\<close> and \<^verbatim>\<open>undefined\<close> for the empty string, and \<^verbatim>\<open>innerHTML\<close> serialises the
  text with the ampersand, the angle brackets and the no-break space escaped.
\<close>

definition textarea_innerHTML :: "jsval \<Rightarrow> string" where
  "textarea_innerHTML v =
     concat (map (\<lambda>c. if c = CHR ''&'' then ''&amp;''
                       else if c = CHR ''<'' then ''&lt;''
                       else if c = CHR ''>'' then ''&gt;''
                       else if c = CHR 0xA0 then ''&nbsp;''
                       else [c])
               (if v = Undefined \<or> v = Null then [] else toString v))"

section \<open>The indentation normaliser\<close>

text \<open>\<^verbatim>\<open>values[i][0]\<close>: reading a property of \<^verbatim>\<open>null\<close> or \<^verbatim>\<open>undefined\<close> throws.\<close>

fun index0 :: "jsval \<Rightarrow> error + jsval" where
  "index0 Undefined = Inl TypeError"
| "index0 Null = Inl TypeError"
| "index0 (Bool b) = Inr Undefined"
| "index0 (Num n) = Inr Undefined"
| "index0 (Str s) = Inr (case s of [] \<Rightarrow> Undefined | c # _ \<Rightarrow> Str [c])"
| "index0 (Arr xs) = Inr (js_nth xs 0)"
| "index0 (Obj kvs) = Inr (case map_of kvs ''0'' of None \<Rightarrow> Undefined | Some x \<Rightarrow> x)"

text \<open>
  Lines 70 to 85, for a value that is not \<^verbatim>\<open>undefined\<close>; \<^verbatim>\<open>split\<close> holds the lines of the
  segment before it, already dedented. Only a string has a \<^verbatim>\<open>split\<close> method.
\<close>

definition dedent_value :: "string list \<Rightarrow> jsval \<Rightarrow> error + jsval" where
  "dedent_value split v =
     (case index0 v of
        Inl e \<Rightarrow> Inl e
      | Inr c \<Rightarrow>
          if c = Str [LF] then
            (case v of
               Str s \<Rightarrow>
                 (let innerIndentation = last split;
                      innerIndentation =
                        substr innerIndentation 0 (search re_nonspace_or_end innerIndentation)
                  in Inr (Str (substr_from
                       (join_str [LF] (map (\<lambda>str. innerIndentation @ str) (split_str LF s)))
                       (int (length innerIndentation) * 2 + 1))))
             | _ \<Rightarrow> Inl TypeError)
          else Inr v)"

text \<open>
  The callback of \<^verbatim>\<open>strings.forEach\<close> (lines 60 to 88), on the result built so far:
  the strings and the values pushed.
\<close>

definition dedent_segment ::
  "int \<Rightarrow> jsval list \<Rightarrow> string list \<times> jsval list \<Rightarrow> jsval \<Rightarrow> nat
     \<Rightarrow> error + string list \<times> jsval list" where
  "dedent_segment indent values result text i =
     (case text of
        Str t \<Rightarrow>
          (let split = map_index (\<lambda>s k. if k = 0 then s else substr_from s indent)
                         (split_str LF t)
           in if js_nth values i = Undefined
              then Inr (fst result @ [join_str [LF] split], snd result)
              else (case dedent_value split (js_nth values i) of
                      Inl e \<Rightarrow> Inl e
                    | Inr v \<Rightarrow> Inr (fst result @ [join_str [LF] split], snd result @ [v])))
      | _ \<Rightarrow> Inl TypeError)"

fun dedent_forEach ::
  "int \<Rightarrow> jsval list \<Rightarrow> jsval list \<Rightarrow> nat \<Rightarrow> string list \<times> jsval list
     \<Rightarrow> error + string list \<times> jsval list" where
  "dedent_forEach indent values [] i result = Inr result"
| "dedent_forEach indent values (text # rest) i result =
     (case dedent_segment indent values result text i of
        Inl e \<Rightarrow> Inl e
      | Inr result' \<Rightarrow> dedent_forEach indent values rest (Suc i) result')"

text \<open>Lines 53 to 92. A string method called on \<^verbatim>\<open>strings[0]\<close> throws when that is no string.\<close>

definition dedent :: "jsval list \<Rightarrow> jsval list \<Rightarrow> error + jsval list \<times> jsval list" where
  "dedent strings values =
     (case js_nth strings 0 of
        Str s0 \<Rightarrow>
          if startsWith s0 LF then
            (let indent = search re_base_indent s0 - 1
             in case dedent_forEach indent values strings 0 ([], []) of
                  Inl e \<Rightarrow> Inl e
                | Inr result \<Rightarrow> Inr (map Str (fst result), snd result))
          else Inr (strings, values)
      | _ \<Rightarrow> Inl TypeError)"

section \<open>The transformation pipeline\<close>

text \<open>Lines 96 to 119.\<close>

definition lastToken_of :: "string \<Rightarrow> string" where
  "lastToken_of str = substr_from str (search re_last_token str + 1)"

definition explicitTransformation :: "settings \<Rightarrow> jsval \<Rightarrow> jsval \<Rightarrow> error + string" where
  "explicitTransformation cfg str0 value0 =
     (case str0 of
        Str str \<Rightarrow>
          (let suffixes = suffix_lookup cfg;
               lastToken = lastToken_of str
           in if length lastToken > 0 then
                if \<not> startsWith lastToken backslash then
                  (case suffixes lastToken of
                     Some f \<Rightarrow>
                       if is_function f then
                         (case call_suffix cfg f value0 of
                            Inl e \<Rightarrow> Inl e
                          | Inr v \<Rightarrow>
                              Inr (substr str 0 (int (length str) - int (length lastToken))
                                     @ toString v))
                       else Inr (str @ toString value0)
                   | None \<Rightarrow> Inr (str @ toString value0))
                else
                  (case suffixes lastToken of
                     Some f \<Rightarrow>
                       if suffix_truthy f then
                         Inr ((substr str 0 (int (length str) - int (length lastToken) - 1)
                                 @ lastToken) @ toString value0)
                       else Inr (str @ toString value0)
                   | None \<Rightarrow> Inr (str @ toString value0))
              else Inr (str @ toString value0))
      | _ \<Rightarrow> Inl TypeError)"

section \<open>The tag \<^verbatim>\<open>yatte.do\<close>\<close>

text \<open>\<^verbatim>\<open>values.reduce((old, value, i) => old + explicitTransformation(strings[i], value), '')\<close>\<close>

fun reduce_values ::
  "settings \<Rightarrow> jsval list \<Rightarrow> jsval list \<Rightarrow> nat \<Rightarrow> string \<Rightarrow> error + string" where
  "reduce_values cfg strings [] i old = Inr old"
| "reduce_values cfg strings (v # rest) i old =
     (case explicitTransformation cfg (js_nth strings i) v of
        Inl e \<Rightarrow> Inl e
      | Inr t \<Rightarrow> reduce_values cfg strings rest (Suc i) (old @ t))"

text \<open>Lines 127 to 136: the strings and values the assembly works on.\<close>

definition normalise ::
  "settings \<Rightarrow> jsval \<Rightarrow> jsval list \<Rightarrow> error + jsval list \<times> jsval list" where
  "normalise cfg strings values =
     (case strings of
        Arr ss \<Rightarrow> if indentation cfg then dedent ss values else Inr (ss, values)
      | _ \<Rightarrow> Inr ([strings], values))"

text \<open>Lines 139 to 141.\<close>

definition assemble :: "settings \<Rightarrow> jsval list \<Rightarrow> jsval list \<Rightarrow> error + string" where
  "assemble cfg strings values =
     (case (if length values \<noteq> 0 then reduce_values cfg strings values 0 [] else Inr []) of
        Inl e \<Rightarrow> Inl e
      | Inr s \<Rightarrow> Inr (s @ toString (js_last strings)))"

definition yatte_do :: "settings \<Rightarrow> jsval \<Rightarrow> jsval list \<Rightarrow> error + string" where
  "yatte_do cfg strings values =
     (case normalise cfg strings values of
        Inl e \<Rightarrow> Inl e
      | Inr (strings', values') \<Rightarrow> assemble cfg strings' values')"

section \<open>The conditional chain \<^verbatim>\<open>yatte.if\<close>\<close>

text \<open>
  The two objects the source builds, one constructor each: \<^verbatim>\<open>FallThrough result\<close> is
  \<^verbatim>\<open>{ elseIf: () => ifFallThrough(result), else: () => result }\<close> of lines 151 to 154,
  \<^verbatim>\<open>Branch\<close> is \<^verbatim>\<open>{ elseIf: yatte.if, else: yatte.do }\<close> of lines 162 to 165. The
  methods are the functions \<^verbatim>\<open>chain_elseIf\<close> and \<^verbatim>\<open>chain_else\<close> below; a tag receives
  its first argument and the list of the others.
\<close>

datatype chain = FallThrough string | Branch

text \<open>\<^verbatim>\<open>ifFallThrough(result)\<close> is a function that ignores its arguments.\<close>

definition ifFallThrough :: "string \<Rightarrow> jsval \<Rightarrow> jsval list \<Rightarrow> chain" where
  "ifFallThrough result strings values = FallThrough result"

definition yatte_if :: "settings \<Rightarrow> jsval \<Rightarrow> jsval \<Rightarrow> jsval list \<Rightarrow> error + chain" where
  "yatte_if cfg condition strings values =
     (if truthy condition then
        (case yatte_do cfg strings values of
           Inl e \<Rightarrow> Inl e
         | Inr result \<Rightarrow> Inr (ifFallThrough result Undefined []))
      else Inr Branch)"

text \<open>\<^verbatim>\<open>obj.elseIf(condition)(strings, ...values)\<close>\<close>

fun chain_elseIf :: "settings \<Rightarrow> chain \<Rightarrow> jsval \<Rightarrow> jsval \<Rightarrow> jsval list \<Rightarrow> error + chain" where
  "chain_elseIf cfg (FallThrough result) condition strings values =
     Inr (ifFallThrough result strings values)"
| "chain_elseIf cfg Branch condition strings values = yatte_if cfg condition strings values"

text \<open>\<^verbatim>\<open>obj.else(strings, ...values)\<close>\<close>

fun chain_else :: "settings \<Rightarrow> chain \<Rightarrow> jsval \<Rightarrow> jsval list \<Rightarrow> error + string" where
  "chain_else cfg (FallThrough result) strings values = Inr result"
| "chain_else cfg Branch strings values = yatte_do cfg strings values"

text \<open>A method call on the outcome of the call before it: an error thrown there propagates.\<close>

definition on_chain :: "error + chain \<Rightarrow> (chain \<Rightarrow> error + 'a) \<Rightarrow> error + 'a" where
  "on_chain r f = (case r of Inl e \<Rightarrow> Inl e | Inr obj \<Rightarrow> f obj)"

section \<open>The loop \<^verbatim>\<open>yatte.loop\<close>\<close>

text \<open>
  The functions of the host read and write a state of the host's, of type \<^verbatim>\<open>'s\<close>, and
  may throw. The first argument of \<^verbatim>\<open>yatte.loop\<close> is a function or another value; so
  is the first argument of the tag it returns.
\<close>

datatype 's iterable = IFunction "'s \<Rightarrow> (error + jsval) \<times> 's" | IValue jsval

datatype 's template = TFunction "jsval list \<Rightarrow> 's \<Rightarrow> (error + jsval) \<times> 's" | TValue jsval

text \<open>
  \<^verbatim>\<open>Object.keys(object)\<close> and \<^verbatim>\<open>object[key]\<close>. An array index is a key that is the
  decimal form of a number below \<^verbatim>\<open>2^32 - 1\<close>. The keys of an array and of a string are
  the indices; those of an object are its array indices in ascending order and then its
  other keys in the order in which they were added; \<^verbatim>\<open>undefined\<close> and \<^verbatim>\<open>null\<close> have no keys
  to list.
\<close>

definition parse_nat :: "string \<Rightarrow> nat" where
  "parse_nat key =
     foldl (\<lambda>acc c. acc * 10 + (case map_of (zip ''0123456789'' [0..<10]) c of
                                   Some d \<Rightarrow> d | None \<Rightarrow> 0)) 0 key"

definition parse_index :: "string \<Rightarrow> nat option" where
  "parse_index key =
     (if key \<noteq> [] \<and> list_all (\<lambda>c. c \<in> set ''0123456789'') key \<and> digits (parse_nat key) = key
      then Some (parse_nat key) else None)"

definition is_array_index :: "string \<Rightarrow> bool" where
  "is_array_index key = (case parse_index key of None \<Rightarrow> False | Some i \<Rightarrow> i < 4294967295)"

definition own_keys :: "string list \<Rightarrow> string list" where
  "own_keys added =
     map digits (sort (map parse_nat (filter is_array_index added)))
       @ filter (\<lambda>key. \<not> is_array_index key) added"

fun object_keys :: "jsval \<Rightarrow> error + string list" where
  "object_keys Undefined = Inl TypeError"
| "object_keys Null = Inl TypeError"
| "object_keys (Bool b) = Inr []"
| "object_keys (Num n) = Inr []"
| "object_keys (Str s) = Inr (map digits [0..<length s])"
| "object_keys (Arr xs) = Inr (map digits [0..<length xs])"
| "object_keys (Obj kvs) = Inr (own_keys (map fst kvs))"

fun get_prop :: "jsval \<Rightarrow> string \<Rightarrow> jsval" where
  "get_prop (Arr xs) key = (case parse_index key of Some i \<Rightarrow> js_nth xs i | None \<Rightarrow> Undefined)"
| "get_prop (Str s) key =
     (case parse_index key of
        Some i \<Rightarrow> if i < length s then Str [s ! i] else Undefined
      | None \<Rightarrow> Undefined)"
| "get_prop (Obj kvs) key = (case map_of kvs key of Some v \<Rightarrow> v | None \<Rightarrow> Undefined)"
| "get_prop v key = Undefined"

text \<open>Lines 173 to 193: \<^verbatim>\<open>collectionLength\<close> and \<^verbatim>\<open>collection\<close>.\<close>

definition classify :: "'s iterable \<Rightarrow> error + nat \<times> (string \<times> jsval) list" where
  "classify object =
     (case object of
        IFunction p \<Rightarrow> Inr (1, [])
      | IValue (Num n) \<Rightarrow> Inr (nat \<bar>n\<bar>, [])
      | IValue v \<Rightarrow>
          (case object_keys v of
             Inl e \<Rightarrow> Inl e
           | Inr keys \<Rightarrow>
               (let collection = map (\<lambda>key. (key, get_prop v key)) keys
                in Inr (length collection, collection))))"

text \<open>Lines 202 to 204. The loop need not end: \<^verbatim>\<open>None\<close> is a run that never returns.\<close>

partial_function (option) while_loop ::
  "('s \<Rightarrow> (error + jsval) \<times> 's) \<Rightarrow> (jsval list \<Rightarrow> 's \<Rightarrow> (error + jsval) \<times> 's)
     \<Rightarrow> jsval list \<Rightarrow> 's \<Rightarrow> ((error + jsval list) \<times> 's) option" where
  "while_loop object strings mapped s =
     (case object s of
        (Inl e, s1) \<Rightarrow> Some (Inl e, s1)
      | (Inr c, s1) \<Rightarrow>
          if c = Bool True then
            (case strings [] s1 of
               (Inl e, s2) \<Rightarrow> Some (Inl e, s2)
             | (Inr r, s2) \<Rightarrow> while_loop object strings (mapped @ [r]) s2)
          else Some (Inr mapped, s1))"

text \<open>Lines 209 to 211.\<close>

function for_loop ::
  "(jsval list \<Rightarrow> 's \<Rightarrow> (error + jsval) \<times> 's) \<Rightarrow> nat \<Rightarrow> nat \<Rightarrow> jsval list \<Rightarrow> 's
     \<Rightarrow> (error + jsval list) \<times> 's" where
  "for_loop strings i collectionLength mapped s =
     (if i < collectionLength then
        (case strings [Num (int i), Num (int i)] s of
           (Inl e, s1) \<Rightarrow> (Inl e, s1)
         | (Inr r, s1) \<Rightarrow> for_loop strings (Suc i) collectionLength (mapped @ [r]) s1)
      else (Inr mapped, s))"
  by pat_completeness auto
termination
  by (relation "measure (\<lambda>(strings, i, collectionLength, mapped, s). collectionLength - i)") auto

declare for_loop.simps [simp del]

text \<open>Lines 215 to 216: \<^verbatim>\<open>collection.map(item => strings(item.value, item.key))\<close>\<close>

fun map_collection ::
  "(jsval list \<Rightarrow> 's \<Rightarrow> (error + jsval) \<times> 's) \<Rightarrow> (string \<times> jsval) list \<Rightarrow> 's
     \<Rightarrow> (error + jsval list) \<times> 's" where
  "map_collection strings [] s = (Inr [], s)"
| "map_collection strings (item # rest) s =
     (case strings [snd item, Str (fst item)] s of
        (Inl e, s1) \<Rightarrow> (Inl e, s1)
      | (Inr r, s1) \<Rightarrow>
          (case map_collection strings rest s1 of
             (Inl e, s2) \<Rightarrow> (Inl e, s2)
           | (Inr rs, s2) \<Rightarrow> (Inr (r # rs), s2)))"

text \<open>Lines 198 to 218: the switch that fills \<^verbatim>\<open>mapped\<close>.\<close>

definition fill_mapped ::
  "'s iterable \<Rightarrow> nat \<Rightarrow> (string \<times> jsval) list \<Rightarrow> (jsval list \<Rightarrow> 's \<Rightarrow> (error + jsval) \<times> 's)
     \<Rightarrow> 's \<Rightarrow> ((error + jsval list) \<times> 's) option" where
  "fill_mapped object collectionLength collection strings s =
     (case object of
        IFunction p \<Rightarrow> while_loop p strings [] s
      | IValue (Num n) \<Rightarrow> Some (for_loop strings 0 collectionLength [] s)
      | IValue v \<Rightarrow> Some (map_collection strings collection s))"

text \<open>Lines 221 to 226.\<close>

definition strip_linebreak :: "jsval \<Rightarrow> nat \<Rightarrow> jsval" where
  "strip_linebreak str i =
     (case str of
        Str t \<Rightarrow> if i > 0 \<and> startsWith t LF then Str (substr_from t 1) else str
      | _ \<Rightarrow> str)"

text \<open>\<^verbatim>\<open>s.repeat(n)\<close>\<close>

definition repeat :: "string \<Rightarrow> nat \<Rightarrow> string" where
  "repeat s n = concat (replicate n s)"

text \<open>
  Lines 170 to 237. \<^verbatim>\<open>joinChar\<close> is a string, \<^verbatim>\<open>None\<close> when the caller leaves it out.
  \<^verbatim>\<open>substring(0, n)\<close> takes a negative \<^verbatim>\<open>n\<close> for zero, as the subtraction on \<^verbatim>\<open>nat\<close> does.
\<close>

definition yatte_loop ::
  "settings \<Rightarrow> 's iterable \<Rightarrow> string option \<Rightarrow> 's template \<Rightarrow> jsval list \<Rightarrow> 's
     \<Rightarrow> ((error + string) \<times> 's) option" where
  "yatte_loop cfg object joinChar0 strings values s =
     (let joinChar = (case joinChar0 of None \<Rightarrow> [LF] | Some j \<Rightarrow> j) in
      case classify object of
        Inl e \<Rightarrow> Some (Inl e, s)
      | Inr (collectionLength, collection) \<Rightarrow>
          (case strings of
             TFunction body \<Rightarrow>
               (case fill_mapped object collectionLength collection body s of
                  None \<Rightarrow> None
                | Some (Inl e, s1) \<Rightarrow> Some (Inl e, s1)
                | Some (Inr mapped, s1) \<Rightarrow>
                    Some (Inr (js_join joinChar (map_index strip_linebreak mapped)), s1))
           | TValue v \<Rightarrow>
               (case (case v of Arr ss \<Rightarrow> yatte_do cfg v values | _ \<Rightarrow> Inr (toString v)) of
                  Inl e \<Rightarrow> Some (Inl e, s)
                | Inr str \<Rightarrow>
                    (let result = repeat (str @ joinChar) collectionLength
                     in Some (Inr (take (length result - length joinChar) result), s)))))"

section \<open>Functions of a host\<close>

text \<open>
  Two functions a caller can pass to \<^verbatim>\<open>yatte.loop\<close>, on a state that counts the calls of
  the first and records those of the second.
\<close>

text \<open>
  A predicate that answers from a list, one answer a call, and \<^verbatim>\<open>undefined\<close> once the list
  is used up.
\<close>

definition scripted_predicate ::
  "jsval list \<Rightarrow> nat \<times> nat list \<Rightarrow> (error + jsval) \<times> (nat \<times> nat list)" where
  "scripted_predicate answers st = (Inr (js_nth answers (fst st)), (Suc (fst st), snd st))"

text \<open>
  A body that returns \<^verbatim>\<open>f k\<close> after \<^verbatim>\<open>k\<close> calls of the predicate and records \<^verbatim>\<open>k\<close>.
\<close>

definition recording_body ::
  "(nat \<Rightarrow> jsval) \<Rightarrow> jsval list \<Rightarrow> nat \<times> nat list \<Rightarrow> (error + jsval) \<times> (nat \<times> nat list)" where
  "recording_body f args st = (Inr (f (fst st)), (fst st, snd st @ [fst st]))"

section \<open>What the specification says of the normaliser\<close>




section \<open>What the normaliser computes on a segment\<close>


section \<open>Lemmas on the string methods\<close>













lemma join_str_Cons: "ls \<noteq> [] \<Longrightarrow> join_str sep (l # ls) = l @ sep @ join_str sep ls"
  by (cases ls) simp_all





section \<open>The normaliser removes the base indentation\<close>










text \<open>
  A later line that is indented by less than the base is outside the claim. There line 64
  cuts characters that are no indentation, against the comment on line 63, which speaks
  of reducing the indentation to the base level: the \<^verbatim>\<open>2\<close> of \<^verbatim>\<open>["\n    1\n  2"]\<close> is lost.
\<close>

lemma dedent_cuts_short_line:
  "yatte_do (default_settings None) (Arr [Str (LF # ''    1'' @ LF # ''  2'')]) []
     = Inr (LF # ''1'' @ [LF])"
  by (simp add: yatte_do_def normalise_def default_settings_def dedent_def js_nth_def
      startsWith_def search_def re_base_indent_def dedent_segment_def map_index_def
      substr_from_def assemble_def js_last_def)

section \<open>The assembly\<close>

lemma reduce_values_pieces:
  "length pieces = length vs
     \<Longrightarrow> (\<And>k. k < length vs \<Longrightarrow>
           explicitTransformation cfg (js_nth ss (i + k)) (vs ! k) = Inr (pieces ! k))
     \<Longrightarrow> reduce_values cfg ss vs i old = Inr (old @ concat pieces)"
proof (induction vs arbitrary: i old pieces)
  case Nil
  then show ?case by simp
next
  case (Cons v vs)
  then obtain p ps where pieces: "pieces = p # ps" and len: "length ps = length vs"
    by (cases pieces) auto
  from Cons.prems(2) [of 0] pieces
  have first: "explicitTransformation cfg (js_nth ss i) v = Inr p" by simp
  have "explicitTransformation cfg (js_nth ss (Suc i + k)) (vs ! k) = Inr (ps ! k)"
    if "k < length vs" for k
    using Cons.prems(2) [of "Suc k"] that pieces by simp
  from Cons.IH [OF len this] first pieces show ?case by simp
qed

text \<open>
  The render is the pieces \<^verbatim>\<open>explicitTransformation\<close> returns for the pairs of a segment and
  its value, in order, followed by the last segment.
\<close>

lemma yatte_do_pieces:
  assumes "normalise cfg strings vals = Inr (ss, vs)" and "length pieces = length vs"
    and "\<And>k. k < length vs \<Longrightarrow>
           explicitTransformation cfg (js_nth ss k) (vs ! k) = Inr (pieces ! k)"
  shows "yatte_do cfg strings vals = Inr (concat pieces @ toString (js_last ss))"
proof -
  have "reduce_values cfg ss vs 0 [] = Inr ([] @ concat pieces)"
    using assms(2,3) by (intro reduce_values_pieces) simp_all
  with assms(1,2) show ?thesis
    by (cases "vs = []") (simp_all add: yatte_do_def assemble_def)
qed

section \<open>The last token of a segment\<close>

lemma search_last_token_none:
  "list_all (\<lambda>x. \<not> is_space x) tok \<Longrightarrow> search_from re_last_token i tok = - 1"
  by (induction tok arbitrary: i) (auto simp: re_last_token_def)

lemma search_last_token_at:
  "tok \<noteq> [] \<Longrightarrow> list_all (\<lambda>x. \<not> is_space x) tok \<Longrightarrow> is_space c
     \<Longrightarrow> search_from re_last_token i (p @ c # tok) = int i + int (length p)"
  by (induction p arbitrary: i) (auto simp: re_last_token_def list_all_iff)

lemma lastToken_of_token:
  assumes "tok \<noteq> []" and "list_all (\<lambda>x. \<not> is_space x) tok"
    and "pre = [] \<or> is_space (last pre)"
  shows "lastToken_of (pre @ tok) = tok"
proof (cases "pre = []")
  case True
  with assms show ?thesis
    by (simp add: lastToken_of_def search_def search_last_token_none substr_from_def)
next
  case False
  then obtain p c where pre: "pre = p @ [c]" by (metis rev_exhaust)
  with assms False have "is_space c" by simp
  moreover have "nat (int (length p) + 1) = Suc (length p)" by simp
  ultimately show ?thesis
    using search_last_token_at [OF assms(1,2), of c 0 p]
    by (simp add: pre lastToken_of_def search_def substr_from_def)
qed

lemma substr_prefix: "substr (pre @ tok) 0 (int (length (pre @ tok)) - int (length tok)) = pre"
  by (simp add: substr_def)

lemma suffix_lookup_own: "transform cfg key = Some f \<Longrightarrow> suffix_lookup cfg key = Some (Entry f)"
  by (simp add: suffix_lookup_def)

lemma suffix_lookup_backslash:
  "transform cfg (backslash # key) = None \<Longrightarrow> suffix_lookup cfg (backslash # key) = None"
  by (simp add: suffix_lookup_def object_prototype_functions_def)

lemma is_function_Entry: "is_function (Entry f) = (\<forall>x. f \<noteq> XValue x)"
  by (cases f) (simp_all add: is_function_def)

lemma explicitTransformation_registered:
  assumes "tok \<noteq> []" and "list_all (\<lambda>x. \<not> is_space x) tok"
    and "pre = [] \<or> is_space (last pre)"
    and "\<not> startsWith tok backslash" and "transform cfg tok = Some f"
    and "\<forall>x. f \<noteq> XValue x"
  shows "explicitTransformation cfg (Str (pre @ tok)) v =
           (case call_xform cfg f v of Inl e \<Rightarrow> Inl e | Inr v' \<Rightarrow> Inr (pre @ toString v'))"
  using assms(1,4,6) substr_prefix [of pre tok]
  by (simp add: explicitTransformation_def lastToken_of_token [OF assms(1-3)] Let_def
      suffix_lookup_own [OF assms(5)] is_function_Entry
      del: length_append split: sum.splits)

lemma replace_all_removes: "c \<notin> set r \<Longrightarrow> c \<notin> set (replace_all c r s)"
  by (induction s) (auto simp: replace_all_def)

lemma replace_all_keeps_absent: "x \<notin> set r \<Longrightarrow> x \<notin> set s \<Longrightarrow> x \<notin> set (replace_all c r s)"
  by (induction s) (auto simp: replace_all_def)

lemma replace_all_append:
  "replace_all c r (a @ b) = replace_all c r a @ replace_all c r b"
  by (simp add: replace_all_def)

lemma replace_all_absent: "c \<notin> set s \<Longrightarrow> replace_all c r s = s"
  by (induction s) (auto simp: replace_all_def)

text \<open>
  The escape function of the source puts \<^verbatim>\<open>&#34;\<close> for every double quote and \<^verbatim>\<open>&#39;\<close>
  for every single quote of what the text area returns and leaves every other character
  as it is.
\<close>

lemma escapeHTMLFunc_escapes_quotes:
  "call_xform (default_settings (Some e)) XEscape v =
     Inr (Str (concat (map (\<lambda>c. if c = CHR 0x22 then ''&#34;''
                                  else if c = CHR 0x27 then ''&#39;'' else [c]) (e v))))"
proof -
  have "replace_all (CHR 0x27) ''&#39;'' (replace_all (CHR 0x22) ''&#34;'' s) =
      concat (map (\<lambda>c. if c = CHR 0x22 then ''&#34;''
                        else if c = CHR 0x27 then ''&#39;'' else [c]) s)" for s
  proof (induction s)
    case Nil
    then show ?case by (simp add: replace_all_def)
  next
    case (Cons c s)
    have "replace_all (CHR 0x22) ''&#34;'' (c # s) =
        (if c = CHR 0x22 then ''&#34;'' else [c]) @ replace_all (CHR 0x22) ''&#34;'' s"
      by (simp add: replace_all_def)
    moreover have "replace_all (CHR 0x27) ''&#39;'' ''&#34;'' = ''&#34;''"
      by (simp add: replace_all_def)
    moreover have "replace_all (CHR 0x27) ''&#39;'' [c] =
        (if c = CHR 0x27 then ''&#39;'' else [c])"
      by (simp add: replace_all_def)
    ultimately show ?case
      using Cons.IH by (simp add: replace_all_append)
  qed
  then show ?thesis
    by (simp add: default_settings_def call_escapeHTMLFunc_def default_escapeHTMLFunc_def)
qed

lemma escapeHTMLFunc_quotes:
  "\<exists>out. call_xform (default_settings (Some e)) XEscape v = Inr (Str out)
     \<and> CHR 0x22 \<notin> set out \<and> CHR 0x27 \<notin> set out"
proof -
  let ?a = "replace_all (CHR 0x22) ''&#34;'' (e v)"
  let ?b = "replace_all (CHR 0x27) ''&#39;'' ?a"
  have "CHR 0x22 \<notin> set ?a" by (rule replace_all_removes) simp
  then have "CHR 0x22 \<notin> set ?b" by (simp add: replace_all_keeps_absent)
  moreover have "CHR 0x27 \<notin> set ?b" by (rule replace_all_removes) simp
  moreover have "call_xform (default_settings (Some e)) XEscape v = Inr (Str ?b)"
    by (simp add: default_settings_def call_escapeHTMLFunc_def default_escapeHTMLFunc_def)
  ultimately show ?thesis by blast
qed

lemma yatte_do_two_segments:
  assumes "\<not> startsWith s LF"
  shows "yatte_do cfg (Arr [Str s, Str post]) [v] =
           (case explicitTransformation cfg (Str s) v of
              Inl e \<Rightarrow> Inl e | Inr t \<Rightarrow> Inr (t @ post))"
  using assms
  by (simp add: yatte_do_def normalise_def dedent_def js_nth_def assemble_def js_last_def
      split: sum.splits)

text \<open>
  What the pipeline does with a value that is paired with the segment before it. Let
  the segment end in a token: a non-empty run without whitespace that stands at the start
  of the segment or after a whitespace character. If the token does not start with the
  backslash and is a key of the registry under which a function is registered,
  \<^verbatim>\<open>explicitTransformation\<close> strips it from the segment and puts the function's result in
  the value's place (or throws what the function throws); so does the render of a
  template of two segments that the normaliser leaves alone. With the token \<^verbatim>\<open>$\<close> and a
  browser's text area the value \<^verbatim>\<open><p>test</p>\<close> renders to
  \<^verbatim>\<open>This is HTML &lt;p&gt;test&lt;/p&gt;\<close>, and quote characters are escaped.
\<close>

lemma paired_token_transforms_value:
  assumes "tok \<noteq> []" and "list_all (\<lambda>x. \<not> is_space x) tok"
    and "pre = [] \<or> is_space (last pre)"
    and "\<not> startsWith tok backslash" and "transform cfg tok = Some f"
    and "\<forall>x. f \<noteq> XValue x"
  shows "explicitTransformation cfg (Str (pre @ tok)) v =
           (case call_xform cfg f v of Inl e \<Rightarrow> Inl e | Inr v' \<Rightarrow> Inr (pre @ toString v'))
       \<and> (\<not> startsWith (pre @ tok) LF \<longrightarrow>
            yatte_do cfg (Arr [Str (pre @ tok), Str post]) [v] =
              (case call_xform cfg f v of
                 Inl e \<Rightarrow> Inl e | Inr v' \<Rightarrow> Inr (pre @ toString v' @ post)))
       \<and> yatte_do (default_settings (Some textarea_innerHTML))
            (Arr [Str ''This is HTML $'', Str '''']) [Str ''<p>test</p>''] =
              Inr ''This is HTML &lt;p&gt;test&lt;/p&gt;''
       \<and> yatte_do (default_settings (Some textarea_innerHTML))
            (Arr [Str ''say $'', Str '''']) [Str [CHR 0x22, CHR ''a'', CHR 0x27]] =
              Inr ''say &#34;a&#39;''"
proof -
  note et = explicitTransformation_registered [OF assms]
  have render: "yatte_do cfg (Arr [Str (pre @ tok), Str post]) [v] =
      (case call_xform cfg f v of Inl e \<Rightarrow> Inl e | Inr v' \<Rightarrow> Inr (pre @ toString v' @ post))"
    if "\<not> startsWith (pre @ tok) LF"
    unfolding yatte_do_two_segments [OF that] et by (simp split: sum.splits)
  have dollar: "explicitTransformation (default_settings (Some textarea_innerHTML))
      (Str (''This is HTML '' @ ''$'')) (Str ''<p>test</p>'') =
        Inr (''This is HTML '' @ ''&lt;p&gt;test&lt;/p&gt;'')"
    by (subst explicitTransformation_registered [where f = XEscape])
       (simp_all add: is_space_def startsWith_def default_settings_def default_transform_def
          call_escapeHTMLFunc_def default_escapeHTMLFunc_def textarea_innerHTML_def
          replace_all_def)
  have example: "yatte_do (default_settings (Some textarea_innerHTML))
      (Arr [Str ''This is HTML $'', Str '''']) [Str ''<p>test</p>''] =
        Inr ''This is HTML &lt;p&gt;test&lt;/p&gt;''"
    using dollar by (simp add: yatte_do_two_segments startsWith_def)
  have quoted: "explicitTransformation (default_settings (Some textarea_innerHTML))
      (Str (''say '' @ ''$'')) (Str [CHR 0x22, CHR ''a'', CHR 0x27]) =
        Inr (''say '' @ ''&#34;a&#39;'')"
    by (subst explicitTransformation_registered [where f = XEscape])
       (simp_all add: is_space_def startsWith_def default_settings_def default_transform_def
          call_escapeHTMLFunc_def default_escapeHTMLFunc_def textarea_innerHTML_def
          replace_all_def)
  have quotes: "yatte_do (default_settings (Some textarea_innerHTML))
            (Arr [Str ''say $'', Str '''']) [Str [CHR 0x22, CHR ''a'', CHR 0x27]] =
              Inr ''say &#34;a&#39;''"
    using quoted by (simp add: yatte_do_two_segments startsWith_def)
  from et render example quotes show ?thesis by blast
qed

lemma upper_case_token_example:
  "yatte_do (default_settings (Some textarea_innerHTML))
     (Arr [Str (''This is '' @ ''U''), Str ''!'']) [Str ''lower''] = Inr ''This is LOWER!''"
proof -
  let ?cfg = "default_settings (Some textarea_innerHTML)"
  have 1: "''U'' \<noteq> []" by simp
  have 2: "list_all (\<lambda>x. \<not> is_space x) ''U''" by (simp add: is_space_def)
  have 3: "''This is '' = [] \<or> is_space (last ''This is '')" by (simp add: is_space_def)
  have 4: "\<not> startsWith ''U'' backslash" by (simp add: startsWith_def)
  have 5: "transform ?cfg ''U'' = Some XUpper"
    by (simp add: default_settings_def default_transform_def)
  have 6: "\<not> startsWith (''This is '' @ ''U'') LF" by (simp add: startsWith_def)
  have 7: "call_xform ?cfg XUpper (Str ''lower'') = Inr (Str ''LOWER'')"
    by (simp add: toUpperCase_def latin1_small_def latin1_capital_def)
  have 8: "\<forall>x. XUpper \<noteq> XValue x" by simp
  from paired_token_transforms_value [OF 1 2 3 4 5 8, of "Str ''lower''" "''!''"] 6 7
  show ?thesis by simp
qed

section \<open>A token after an undefined value\<close>

text \<open>
  Claim C3 on the code. With the normaliser at work, a value that is \<^verbatim>\<open>undefined\<close> is not
  pushed (line 67 takes it for a segment without a value), so every later value moves
  to the segment before the one it belongs to: in \<^verbatim>\<open>["\na ", "b U", "c"]\<close> with the values
  \<^verbatim>\<open>undefined\<close> and \<^verbatim>\<open>"x"\<close> the segment \<^verbatim>\<open>"b U"\<close> ends in the registered token \<^verbatim>\<open>U\<close>, yet
  the render neither strips the token nor puts \<^verbatim>\<open>"X"\<close> for the value; it pairs \<^verbatim>\<open>"x"\<close>
  with the first segment and loses the second. With the normaliser switched off the same
  template renders as the claim says.
\<close>

theorem undefined_value_unpairs_token:
  "yatte_do (default_settings None)
     (Arr [Str (LF # ''a ''), Str ''b U'', Str ''c'']) [Undefined, Str ''x'']
     = Inr (LF # ''a xc'')
   \<and> yatte_do ((default_settings None)\<lparr>indentation := False\<rparr>)
       (Arr [Str (LF # ''a ''), Str ''b U'', Str ''c'']) [Undefined, Str ''x'']
       = Inr (LF # ''a undefinedb Xc'')"
proof -
  have on: "yatte_do (default_settings None)
     (Arr [Str (LF # ''a ''), Str ''b U'', Str ''c'']) [Undefined, Str ''x'']
     = Inr (LF # ''a xc'')"
    by (simp add: yatte_do_def normalise_def default_settings_def dedent_def js_nth_def
        startsWith_def search_def re_base_indent_def dedent_segment_def dedent_value_def
        map_index_def substr_from_def assemble_def js_last_def explicitTransformation_def
        lastToken_of_def re_last_token_def is_space_def Let_def
        suffix_lookup_def default_transform_def object_prototype_functions_def)
  have off: "yatte_do ((default_settings None)\<lparr>indentation := False\<rparr>)
       (Arr [Str (LF # ''a ''), Str ''b U'', Str ''c'']) [Undefined, Str ''x'']
       = Inr (LF # ''a undefinedb Xc'')"
    by (simp add: yatte_do_def normalise_def default_settings_def js_nth_def
        startsWith_def search_def substr_from_def substr_def assemble_def js_last_def
        explicitTransformation_def lastToken_of_def re_last_token_def is_space_def Let_def
        suffix_lookup_def default_transform_def object_prototype_functions_def
        is_function_def toUpperCase_def latin1_small_def latin1_capital_def)
  from on off show ?thesis by simp
qed

section \<open>An escaped token\<close>

text \<open>
  Claim C2 on the code. When a segment ends in the backslash and a registered key, the
  code looks up the token with its backslash (line 113); unless that longer string is a
  key as well, nothing is stripped: the backslash stays in the output. The claim says
  that the backslash alone is removed.
\<close>

theorem escaped_token_keeps_escape_marker:
  assumes "list_all (\<lambda>x. \<not> is_space x) key"
    and "pre = [] \<or> is_space (last pre)"
    and "transform cfg key = Some f" and "transform cfg (backslash # key) = None"
  shows "explicitTransformation cfg (Str (pre @ backslash # key)) v =
           Inr (pre @ backslash # key @ toString v)"
proof -
  have "lastToken_of (pre @ backslash # key) = backslash # key"
    using assms(1,2) by (intro lastToken_of_token) (simp_all add: is_space_def)
  with suffix_lookup_backslash [OF assms(4)] show ?thesis
    by (simp add: explicitTransformation_def Let_def startsWith_def)
qed

theorem escaped_token_keeps_escape_marker_witness:
  "yatte_do (default_settings (Some textarea_innerHTML))
     (Arr [Str (''This is '' @ backslash # ''$''), Str '''']) [Str ''<p>'']
     = Inr (''This is '' @ backslash # ''$'' @ ''<p>'')"
proof -
  let ?cfg = "default_settings (Some textarea_innerHTML)"
  have 1: "list_all (\<lambda>x. \<not> is_space x) ''$''" by (simp add: is_space_def)
  have 2: "''This is '' = [] \<or> is_space (last ''This is '')" by (simp add: is_space_def)
  have 3: "transform ?cfg ''$'' = Some XEscape"
    by (simp add: default_settings_def default_transform_def)
  have 4: "transform ?cfg (backslash # ''$'') = None"
    by (simp add: default_settings_def default_transform_def)
  have 5: "\<not> startsWith (''This is '' @ backslash # ''$'') LF" by (simp add: startsWith_def)
  from escaped_token_keeps_escape_marker [OF 1 2 3 4, of "Str ''<p>''"]
  show ?thesis unfolding yatte_do_two_segments [OF 5] by simp
qed

text \<open>
  Were the token with its backslash a key too, line 115 would drop the character before
  the token and keep the backslash.
\<close>

lemma escaped_key_registered_strips_separator:
  "explicitTransformation
     ((default_settings None)\<lparr>transform := default_transform (backslash # ''$'' \<mapsto> XEscape)\<rparr>)
     (Str (''This is '' @ backslash # ''$'')) (Str ''<p>'')
     = Inr (''This is'' @ backslash # ''$'' @ ''<p>'')"
  by (simp add: explicitTransformation_def lastToken_of_def search_def re_last_token_def
      is_space_def substr_from_def substr_def startsWith_def default_settings_def
      suffix_lookup_def suffix_truthy_def Let_def)

text \<open>
  Names the registry inherits count as registered, and a property that is no function
  counts in the test of line 113 when it is truthy.
\<close>

lemma inherited_name_is_a_token:
  "yatte_do (default_settings None) (Arr [Str ''a toString'', Str '''']) [Str ''x'']
     = Inr ''a [object Object]''"
  by (simp add: yatte_do_def normalise_def default_settings_def dedent_def js_nth_def
      startsWith_def search_def substr_from_def substr_def assemble_def js_last_def
      explicitTransformation_def lastToken_of_def re_last_token_def is_space_def Let_def
      suffix_lookup_def default_transform_def object_prototype_functions_def
      is_function_def call_inherited_def)

section \<open>The escape token without a text area\<close>




section \<open>The conditional chain\<close>

lemma fall_through_absorbs:
  "foldl (\<lambda>r (condition, strings, values).
            on_chain r (\<lambda>obj. chain_elseIf cfg obj condition strings values))
     (Inr (FallThrough result)) branches = Inr (FallThrough result)"
  by (induction branches) (auto simp: on_chain_def ifFallThrough_def)

text \<open>
  Claim C5. \<^verbatim>\<open>yatte.if(true)(a).elseIf(anything)(b).else(c)\<close> is the rendering of \<^verbatim>\<open>a\<close>, an
  error thrown by that rendering included, also with any number of \<^verbatim>\<open>elseIf\<close> calls in
  between; \<^verbatim>\<open>yatte.if(false)(x).elseIf(true)(b).else(c)\<close> is the rendering of \<^verbatim>\<open>b\<close>. The
  object that holds a result ignores the arguments of \<^verbatim>\<open>elseIf\<close>, staying as it is, and
  of \<^verbatim>\<open>else\<close>, returning the result.
\<close>

theorem conditional_chain_picks_first_true_branch:
  "on_chain (on_chain (yatte_if cfg (Bool True) a avs)
       (\<lambda>obj. chain_elseIf cfg obj anything b bvs))
     (\<lambda>obj. chain_else cfg obj c cvs) = yatte_do cfg a avs
   \<and> on_chain (on_chain (yatte_if cfg (Bool False) x xvs)
       (\<lambda>obj. chain_elseIf cfg obj (Bool True) b bvs))
     (\<lambda>obj. chain_else cfg obj c cvs) = yatte_do cfg b bvs
   \<and> chain_elseIf cfg (FallThrough result) anything b bvs = Inr (FallThrough result)
   \<and> chain_else cfg (FallThrough result) c cvs = Inr result
   \<and> on_chain (foldl (\<lambda>r (condition, strings, values).
            on_chain r (\<lambda>obj. chain_elseIf cfg obj condition strings values))
         (yatte_if cfg (Bool True) a avs) branches)
       (\<lambda>obj. chain_else cfg obj c cvs) = yatte_do cfg a avs"
proof -
  have many: "on_chain (foldl (\<lambda>r (condition, strings, values).
            on_chain r (\<lambda>obj. chain_elseIf cfg obj condition strings values))
         (yatte_if cfg (Bool True) a avs) branches)
       (\<lambda>obj. chain_else cfg obj c cvs) = yatte_do cfg a avs"
  proof (cases "yatte_do cfg a avs")
    case (Inl e)
    have "foldl (\<lambda>r (condition, strings, values).
            on_chain r (\<lambda>obj. chain_elseIf cfg obj condition strings values))
         (Inl e) branches = Inl e"
      by (induction branches) (auto simp: on_chain_def)
    with Inl show ?thesis by (simp add: yatte_if_def) (simp add: on_chain_def)
  next
    case (Inr result)
    then show ?thesis
      by (simp add: yatte_if_def ifFallThrough_def fall_through_absorbs)
         (simp add: on_chain_def)
  qed
  have "on_chain (on_chain (yatte_if cfg (Bool True) a avs)
       (\<lambda>obj. chain_elseIf cfg obj anything b bvs))
     (\<lambda>obj. chain_else cfg obj c cvs) = yatte_do cfg a avs"
    by (simp add: yatte_if_def on_chain_def ifFallThrough_def split: sum.splits)
  moreover have "on_chain (on_chain (yatte_if cfg (Bool False) x xvs)
       (\<lambda>obj. chain_elseIf cfg obj (Bool True) b bvs))
     (\<lambda>obj. chain_else cfg obj c cvs) = yatte_do cfg b bvs"
    by (simp add: yatte_if_def on_chain_def ifFallThrough_def split: sum.splits)
  ultimately show ?thesis using many by (simp add: ifFallThrough_def)
qed

section \<open>The loop on a template\<close>

lemma repeat_join:
  "repeat (str @ sep) (Suc n) = join_str sep (replicate (Suc n) str) @ sep"
proof (induction n)
  case 0
  then show ?case by (simp add: repeat_def)
next
  case (Suc n)
  have "repeat (str @ sep) (Suc (Suc n)) = (str @ sep) @ repeat (str @ sep) (Suc n)"
    by (simp add: repeat_def)
  also have "\<dots> = (str @ sep) @ join_str sep (replicate (Suc n) str) @ sep"
    by (simp only: Suc.IH)
  also have "\<dots> = join_str sep (replicate (Suc (Suc n)) str) @ sep"
    by simp
  finally show ?case .
qed

lemma repeat_without_last_separator:
  "take (length (repeat (str @ sep) n) - length sep) (repeat (str @ sep) n) =
     join_str sep (replicate n str)"
proof (cases n)
  case 0
  then show ?thesis by (simp add: repeat_def)
next
  case (Suc m)
  show ?thesis unfolding Suc repeat_join by simp
qed

text \<open>
  Claim C8. When the tag of \<^verbatim>\<open>yatte.loop\<close> receives an array of segments that \<^verbatim>\<open>yatte.do\<close>
  renders to \<^verbatim>\<open>str\<close>, the outcome is \<^verbatim>\<open>str\<close> repeated \<^verbatim>\<open>|n|\<close> times for the number \<^verbatim>\<open>n\<close>,
  with the separator between the copies and none after the last, and \<^verbatim>\<open>str\<close> once for a
  predicate, which is not called (the host's state is unchanged).
\<close>

theorem loop_repeats_rendered_template:
  assumes "yatte_do cfg (Arr ss) vals = Inr str"
  shows "yatte_loop cfg (IValue (Num n)) sep (TValue (Arr ss)) vals s =
           Some (Inr (join_str (case sep of None \<Rightarrow> [LF] | Some j \<Rightarrow> j)
                   (replicate (nat \<bar>n\<bar>) str)), s)
       \<and> yatte_loop cfg (IFunction p) sep (TValue (Arr ss)) vals s = Some (Inr str, s)"
proof -
  have "yatte_loop cfg (IFunction p) sep (TValue (Arr ss)) vals s = Some (Inr str, s)"
    using assms by (simp add: yatte_loop_def classify_def repeat_def Let_def)
  moreover have "yatte_loop cfg (IValue (Num n)) sep (TValue (Arr ss)) vals s =
           Some (Inr (join_str (case sep of None \<Rightarrow> [LF] | Some j \<Rightarrow> j)
                   (replicate (nat \<bar>n\<bar>) str)), s)"
    using assms
    by (simp add: yatte_loop_def classify_def Let_def repeat_without_last_separator)
  ultimately show ?thesis by simp
qed

theorem loop_repeats_rendered_template_witness:
  "yatte_loop (default_settings None) (IValue (Num 5)) (Some ''-'') (TValue (Arr [Str ''Hi!'']))
     [] () = Some (Inr ''Hi!-Hi!-Hi!-Hi!-Hi!'', ())
   \<and> yatte_loop (default_settings None) (IFunction (\<lambda>s. (Inr (Bool True), s))) (Some ''-'')
       (TValue (Arr [Str ''Hi!''])) [] () = Some (Inr ''Hi!'', ())"
proof -
  have 1: "yatte_do (default_settings None) (Arr [Str ''Hi!'']) [] = Inr ''Hi!''"
    by (simp add: yatte_do_def normalise_def default_settings_def dedent_def js_nth_def
        startsWith_def assemble_def js_last_def)
  have 2: "replicate (nat \<bar>5\<bar>) ''Hi!'' = [''Hi!'', ''Hi!'', ''Hi!'', ''Hi!'', ''Hi!'']"
    by (simp add: numeral_eq_Suc)
  from loop_repeats_rendered_template [OF 1, of 5 "Some ''-''" "()" "\<lambda>s. (Inr (Bool True), s)"]
  show ?thesis unfolding 2 by simp
qed

section \<open>The loop on a predicate\<close>

lemma while_loop_stops:
  "object s = (Inr c, s1) \<Longrightarrow> c \<noteq> Bool True
     \<Longrightarrow> while_loop object strings mapped s = Some (Inr mapped, s1)"
  by (subst while_loop.simps) simp

lemma while_loop_scripted:
  "while_loop (scripted_predicate answers) (recording_body f) mapped (k, log) =
     Some (Inr (mapped @ map f [Suc k..<Suc k + length (takeWhile (\<lambda>c. c = Bool True) (drop k answers))]),
           (Suc k + length (takeWhile (\<lambda>c. c = Bool True) (drop k answers)),
            log @ [Suc k..<Suc k + length (takeWhile (\<lambda>c. c = Bool True) (drop k answers))]))"
proof (induction "length answers - k" arbitrary: k mapped log)
  case 0
  then have "drop k answers = []" and "js_nth answers k = Undefined"
    by (simp_all add: js_nth_def)
  then show ?case
    by (subst while_loop.simps) (simp add: scripted_predicate_def)
next
  case (Suc m)
  then have k: "k < length answers" by simp
  then have d: "drop k answers = answers ! k # drop (Suc k) answers"
    by (simp add: Cons_nth_drop_Suc)
  show ?case
  proof (cases "answers ! k = Bool True")
    case False
    with k d show ?thesis
      by (subst while_loop.simps) (simp add: scripted_predicate_def js_nth_def)
  next
    case True
    from Suc.hyps(2) have m: "m = length answers - Suc k" by simp
    have "while_loop (scripted_predicate answers) (recording_body f) mapped (k, log) =
        while_loop (scripted_predicate answers) (recording_body f) (mapped @ [f (Suc k)])
          (Suc k, log @ [Suc k])"
      using k True
      by (subst while_loop.simps)
         (simp add: scripted_predicate_def recording_body_def js_nth_def)
    also note Suc.hyps(1) [OF m]
    finally show ?thesis
      using True d by (simp add: upt_conv_Cons del: upt_Suc)
  qed
qed

text \<open>
  Claim C10. With a predicate and a body function, the body runs once after each call
  of the predicate that returned the boolean \<^verbatim>\<open>true\<close>, up to the first call that returned
  anything else, a truthy number or string included: the loop ends there, later answers
  are never asked for, and the results of those body calls are joined.
\<close>

theorem predicate_loop_runs_while_exactly_true:
  "yatte_loop cfg (IFunction (scripted_predicate answers)) sep
     (TFunction (recording_body f)) vals (0, []) =
     Some (Inr (js_join (case sep of None \<Rightarrow> [LF] | Some j \<Rightarrow> j)
             (map_index strip_linebreak
                (map f [1..<Suc (length (takeWhile (\<lambda>c. c = Bool True) answers))]))),
           (Suc (length (takeWhile (\<lambda>c. c = Bool True) answers)),
            [1..<Suc (length (takeWhile (\<lambda>c. c = Bool True) answers))]))"
  using while_loop_scripted [of answers f "[]" 0 "[]"]
  by (simp add: yatte_loop_def classify_def fill_mapped_def Let_def)

text \<open>
  The answers \<^verbatim>\<open>true, true, 1, true\<close>: two calls of the body, three of the predicate.
\<close>

theorem predicate_loop_runs_while_exactly_true_witness:
  "yatte_loop (default_settings None)
     (IFunction (scripted_predicate [Bool True, Bool True, Num 1, Bool True]))
     (Some '','') (TFunction (recording_body (\<lambda>k. Num (int k)))) [] (0, []) =
     Some (Inr ''1,2'', (3, [1, 2]))"
  unfolding predicate_loop_runs_while_exactly_true
  by (simp add: js_join_def map_index_def strip_linebreak_def number_toString_def digits.simps
      upt_conv_Cons)

section \<open>Index keys\<close>

lemma digit_value:
  assumes "d < 10"
  shows "map_of (zip ''0123456789'' [0..<10]) (''0123456789'' ! d) = Some d"
proof -
  have u: "[0..<10] = [0, 1, 2, 3, 4, 5, 6, 7, 8, 9::nat]" by code_simp
  from assms have "d \<in> {0, 1, 2, 3, 4, 5, 6, 7, 8, 9}" by auto
  then show ?thesis unfolding u by auto
qed

lemma digit_char_is_digit: "d < 10 \<Longrightarrow> ''0123456789'' ! d \<in> set ''0123456789''"
  by (rule nth_mem) simp

lemma parse_nat_snoc:
  "parse_nat (xs @ [c]) =
     parse_nat xs * 10 + (case map_of (zip ''0123456789'' [0..<10]) c of Some d \<Rightarrow> d | None \<Rightarrow> 0)"
  by (simp add: parse_nat_def)

lemma parse_nat_digits: "parse_nat (digits n) = n"
proof (induction n rule: digits.induct)
  case (1 n)
  show ?case
  proof (cases "n < 10")
    case True
    then show ?thesis
      using parse_nat_snoc [of "[]" "''0123456789'' ! n"]
      by (subst digits.simps) (simp add: digit_value parse_nat_def)
  next
    case False
    have "n mod 10 < 10" by simp
    with False 1 show ?thesis
      by (subst digits.simps) (simp add: parse_nat_snoc digit_value)
  qed
qed

lemma digits_all_digits: "list_all (\<lambda>c. c \<in> set ''0123456789'') (digits n)"
proof (induction n rule: digits.induct)
  case (1 n)
  have "n mod 10 < 10" by simp
  then have m: "''0123456789'' ! (n mod 10) \<in> set ''0123456789''"
    by (rule digit_char_is_digit)
  show ?case
  proof (cases "n < 10")
    case True
    then show ?thesis
      using digit_char_is_digit [of n] by (subst digits.simps) simp
  next
    case False
    with 1 m show ?thesis by (subst digits.simps) simp
  qed
qed

lemma digits_not_Nil: "digits n \<noteq> []"
  by (subst digits.simps) simp

lemma parse_index_digits: "parse_index (digits n) = Some n"
  using digits_all_digits [of n]
  by (simp add: parse_index_def parse_nat_digits digits_not_Nil)

lemma classify_Arr:
  "classify (IValue (Arr xs)) =
     Inr (length xs, map (\<lambda>i. (digits i, xs ! i)) [0..<length xs])"
  by (simp add: classify_def parse_index_digits js_nth_def comp_def)

lemma array_index_canonical: "is_array_index key \<Longrightarrow> digits (parse_nat key) = key"
  by (auto simp: is_array_index_def parse_index_def split: if_splits)

lemma is_array_index_digits: "is_array_index (digits n) = (n < 4294967295)"
  by (simp add: is_array_index_def parse_index_digits)

lemma is_array_index_iff:
  "is_array_index key = (\<exists>n. n < 4294967295 \<and> key = digits n)"
proof
  assume a: "is_array_index key"
  then have "parse_nat key < 4294967295"
    by (auto simp: is_array_index_def parse_index_def split: if_splits)
  with array_index_canonical [OF a] show "\<exists>n. n < 4294967295 \<and> key = digits n"
    by metis
next
  assume "\<exists>n. n < 4294967295 \<and> key = digits n"
  then show "is_array_index key" by (auto simp: is_array_index_digits)
qed

lemma own_keys_front:
  "list_all is_array_index (map digits (sort (map parse_nat (filter is_array_index added))))"
proof -
  have "is_array_index (digits n)" if "n \<in> set (map parse_nat (filter is_array_index added))" for n
  proof -
    from that obtain key where "is_array_index key" and "n = parse_nat key" by auto
    then show ?thesis using array_index_canonical [of key] by simp
  qed
  then show ?thesis by (simp add: list_all_iff)
qed

lemma own_keys_each_once:
  "set (own_keys added) = set added \<and> length (own_keys added) = length added"
proof -
  have "(\<lambda>key. digits (parse_nat key)) ` set (filter is_array_index added)
      = set (filter is_array_index added)"
    by (auto simp: array_index_canonical image_iff)
  then have "set (own_keys added) = set added"
    by (auto simp: own_keys_def image_image)
  moreover have "length (own_keys added) = length added"
    by (simp add: own_keys_def sum_length_filter_compl)
  ultimately show ?thesis by simp
qed

lemma own_keys_others_in_order:
  "filter (\<lambda>key. \<not> is_array_index key) (own_keys added) =
     filter (\<lambda>key. \<not> is_array_index key) added"
proof -
  have "filter (\<lambda>key. \<not> is_array_index key)
      (map digits (sort (map parse_nat (filter is_array_index added)))) = []"
    using own_keys_front [of added] by (simp add: list_all_iff filter_empty_conv)
  then show ?thesis by (simp add: own_keys_def)
qed

lemma own_keys_indices_first:
  "\<exists>front. own_keys added = front @ filter (\<lambda>key. \<not> is_array_index key) added
     \<and> list_all is_array_index front \<and> sorted (map parse_nat front)"
proof (intro exI conjI)
  show "own_keys added =
      map digits (sort (map parse_nat (filter is_array_index added)))
        @ filter (\<lambda>key. \<not> is_array_index key) added"
    by (simp add: own_keys_def)
  show "list_all is_array_index (map digits (sort (map parse_nat (filter is_array_index added))))"
    by (rule own_keys_front)
  show "sorted (map parse_nat (map digits (sort (map parse_nat (filter is_array_index added)))))"
    by (simp add: comp_def parse_nat_digits)
qed

lemma own_keys_without_indices:
  "list_all (\<lambda>key. \<not> is_array_index key) added \<Longrightarrow> own_keys added = added"
  by (simp add: own_keys_def list_all_iff filter_empty_conv filter_id_conv)

lemma get_prop_Obj:
  "distinct (map fst kvs) \<Longrightarrow> list_all (\<lambda>(key, v). get_prop (Obj kvs) key = v) kvs"
  by (auto simp: list_all_iff)

lemma classify_Obj:
  "classify (IValue (Obj kvs)) =
     Inr (length kvs, map (\<lambda>key. (key, get_prop (Obj kvs) key)) (own_keys (map fst kvs)))"
  using own_keys_each_once [of "map fst kvs"]
  by (simp add: classify_def)

section \<open>The loop on a collection\<close>

lemma map_collection_recording:
  "map_collection (\<lambda>args log. (Inr (f args), log @ [args])) collection log =
     (Inr (map (\<lambda>item. f [snd item, Str (fst item)]) collection),
      log @ map (\<lambda>item. [snd item, Str (fst item)]) collection)"
  by (induction collection arbitrary: log) simp_all

lemma join_str_snoc:
  "join_str sep (xs @ [x]) = concat (map (\<lambda>y. y @ sep) xs) @ x"
  by (induction sep xs rule: join_str.induct) simp_all

text \<open>
  Claim C6, as the code has it. The loop calls the body once for each entry, in the
  order of \<^verbatim>\<open>Object.keys\<close>, with the entry's value and its key, which is a string: the
  body here records the arguments of each call in the host's state. For an array the
  entries are taken by ascending index and the key is the index in decimal. For an
  object every key is taken once; the keys that are array indices (the decimal form of
  a number below \<^verbatim>\<open>2^32 - 1\<close>) come first, in ascending order, and the other keys follow
  in the order in which they were added, so that an object without such keys is gone
  through in that order; with distinct keys the value passed is the one added under the
  key. The results of the calls (after the
  pass of claim C7) are joined by the separator, which follows every result but the last.
\<close>

theorem loop_over_collection_calls_body_in_order:
  "yatte_loop cfg (IValue (Arr xs)) sep
     (TFunction (\<lambda>args log. (Inr (f args), log @ [args]))) vals [] =
     Some (Inr (js_join (case sep of None \<Rightarrow> [LF] | Some j \<Rightarrow> j)
             (map_index strip_linebreak
                (map (\<lambda>i. f [xs ! i, Str (digits i)]) [0..<length xs]))),
           map (\<lambda>i. [xs ! i, Str (digits i)]) [0..<length xs])
   \<and> yatte_loop cfg (IValue (Obj kvs)) sep
        (TFunction (\<lambda>args log. (Inr (f args), log @ [args]))) vals [] =
        Some (Inr (js_join (case sep of None \<Rightarrow> [LF] | Some j \<Rightarrow> j)
                (map_index strip_linebreak
                   (map (\<lambda>key. f [get_prop (Obj kvs) key, Str key]) (own_keys (map fst kvs))))),
              map (\<lambda>key. [get_prop (Obj kvs) key, Str key]) (own_keys (map fst kvs)))
   \<and> (distinct (map fst kvs) \<longrightarrow> list_all (\<lambda>(key, v). get_prop (Obj kvs) key = v) kvs)
   \<and> set (own_keys added) = set added \<and> length (own_keys added) = length added
   \<and> (\<exists>front. own_keys added = front @ filter (\<lambda>key. \<not> is_array_index key) added
        \<and> list_all is_array_index front \<and> sorted (map parse_nat front))
   \<and> (list_all (\<lambda>key. \<not> is_array_index key) added \<longrightarrow> own_keys added = added)
   \<and> is_array_index key = (\<exists>n. n < 4294967295 \<and> key = digits n)
   \<and> js_join j (rs @ [r]) =
        concat (map (\<lambda>x. (if x = Undefined \<or> x = Null then [] else toString x) @ j) rs)
          @ (if r = Undefined \<or> r = Null then [] else toString r)"
proof -
  have arr: "yatte_loop cfg (IValue (Arr xs)) sep
     (TFunction (\<lambda>args log. (Inr (f args), log @ [args]))) vals [] =
     Some (Inr (js_join (case sep of None \<Rightarrow> [LF] | Some j \<Rightarrow> j)
             (map_index strip_linebreak
                (map (\<lambda>i. f [xs ! i, Str (digits i)]) [0..<length xs]))),
           map (\<lambda>i. [xs ! i, Str (digits i)]) [0..<length xs])"
    by (simp add: yatte_loop_def classify_Arr fill_mapped_def map_collection_recording
        Let_def comp_def)
  have obj: "yatte_loop cfg (IValue (Obj kvs)) sep
        (TFunction (\<lambda>args log. (Inr (f args), log @ [args]))) vals [] =
        Some (Inr (js_join (case sep of None \<Rightarrow> [LF] | Some j \<Rightarrow> j)
                (map_index strip_linebreak
                   (map (\<lambda>key. f [get_prop (Obj kvs) key, Str key]) (own_keys (map fst kvs))))),
              map (\<lambda>key. [get_prop (Obj kvs) key, Str key]) (own_keys (map fst kvs)))"
    by (simp add: yatte_loop_def classify_Obj fill_mapped_def map_collection_recording
        Let_def comp_def del: get_prop.simps)
  have join: "js_join j (rs @ [r]) =
        concat (map (\<lambda>x. (if x = Undefined \<or> x = Null then [] else toString x) @ j) rs)
          @ (if r = Undefined \<or> r = Null then [] else toString r)"
    by (simp add: js_join_def join_str_snoc comp_def)
  from arr obj join get_prop_Obj [of kvs] own_keys_each_once [of added]
    own_keys_indices_first [of added] own_keys_without_indices [of added]
    is_array_index_iff [of key]
  show ?thesis by blast
qed

text \<open>
  The two examples of claim C6, with the default separator, and an object with keys that
  are array indices.
\<close>

theorem loop_over_collection_calls_body_in_order_witness:
  "yatte_loop (default_settings None) (IValue (Arr [Str ''Parrot'', Str ''Rabbit'', Str ''Snake'']))
     None (TFunction (\<lambda>args log.
             (Inr (Str (''This is a '' @ toString (js_nth args 0))), log @ [args]))) [] [] =
     Some (Inr (''This is a Parrot'' @ LF # ''This is a Rabbit'' @ LF # ''This is a Snake''),
           [[Str ''Parrot'', Str ''0''], [Str ''Rabbit'', Str ''1''], [Str ''Snake'', Str ''2'']])
   \<and> yatte_loop (default_settings None) (IValue (Obj [(''name'', Str ''Joe''), (''age'', Num 46)]))
       None (TFunction (\<lambda>args log.
               (Inr (Str (toString (js_nth args 1) @ '': '' @ toString (js_nth args 0))),
                log @ [args]))) [] [] =
       Some (Inr (''name: Joe'' @ LF # ''age: 46''),
             [[Str ''Joe'', Str ''name''], [Num 46, Str ''age'']])
   \<and> yatte_loop (default_settings None)
       (IValue (Obj [(''b'', Num 1), (''2'', Str ''x''), (''1'', Str ''y'')]))
       None (TFunction (\<lambda>args log. (Inr (js_nth args 1), log @ [args]))) [] [] =
       Some (Inr (''1'' @ LF # ''2'' @ LF # ''b''),
             [[Str ''y'', Str ''1''], [Str ''x'', Str ''2''], [Num 1, Str ''b'']])
   \<and> distinct (map fst [(''name'', Str ''Joe''), (''age'', Num 46)])
   \<and> get_prop (Obj [(''name'', Str ''Joe''), (''age'', Num 46)]) ''age'' = Num 46
   \<and> list_all (\<lambda>key. \<not> is_array_index key) [''name'', ''age'']
   \<and> own_keys [''name'', ''age''] = [''name'', ''age'']"
proof -
  note t = loop_over_collection_calls_body_in_order [of "default_settings None" _ None _ "[]"]
  have d: "distinct (map fst [(''name'', Str ''Joe''), (''age'', Num 46)])" by simp
  have o: "list_all (\<lambda>key. \<not> is_array_index key) [''name'', ''age'']"
    by (simp add: is_array_index_def parse_index_def)
  from t [where kvs = "[(''name'', Str ''Joe''), (''age'', Num 46)]"
      and added = "[''name'', ''age'']"] d o
  have g: "list_all (\<lambda>(key, v). get_prop (Obj [(''name'', Str ''Joe''), (''age'', Num 46)]) key = v)
      [(''name'', Str ''Joe''), (''age'', Num 46)]"
    and k: "own_keys [''name'', ''age''] = [''name'', ''age'']"
    by blast+
  from g have g': "get_prop (Obj [(''name'', Str ''Joe''), (''age'', Num 46)]) ''age'' = Num 46"
    by simp
  from k have k1: "own_keys (map fst [(''name'', Str ''Joe''), (''age'', Num 46)]) = [''name'', ''age'']"
    by simp
  have k2: "own_keys (map fst [(''b'', Num 1), (''2'', Str ''x''), (''1'', Str ''y'')])
      = [''1'', ''2'', ''b'']"
    by code_simp
  have n: "number_toString 46 = ''46''"
    by (simp add: number_toString_def digits.simps)
  have a: "yatte_loop (default_settings None)
      (IValue (Arr [Str ''Parrot'', Str ''Rabbit'', Str ''Snake'']))
     None (TFunction (\<lambda>args log.
             (Inr (Str (''This is a '' @ toString (js_nth args 0))), log @ [args]))) [] [] =
     Some (Inr (''This is a Parrot'' @ LF # ''This is a Rabbit'' @ LF # ''This is a Snake''),
           [[Str ''Parrot'', Str ''0''], [Str ''Rabbit'', Str ''1''], [Str ''Snake'', Str ''2'']])"
    unfolding t [THEN conjunct1]
    by (simp add: js_join_def map_index_def strip_linebreak_def js_nth_def digits.simps
        startsWith_def upt_conv_Cons)
  have b: "yatte_loop (default_settings None)
       (IValue (Obj [(''name'', Str ''Joe''), (''age'', Num 46)]))
       None (TFunction (\<lambda>args log.
               (Inr (Str (toString (js_nth args 1) @ '': '' @ toString (js_nth args 0))),
                log @ [args]))) [] [] =
       Some (Inr (''name: Joe'' @ LF # ''age: 46''),
             [[Str ''Joe'', Str ''name''], [Num 46, Str ''age'']])"
    unfolding t [THEN conjunct2, THEN conjunct1] k1
    by (simp add: js_join_def map_index_def strip_linebreak_def js_nth_def n startsWith_def)
  have c: "yatte_loop (default_settings None)
       (IValue (Obj [(''b'', Num 1), (''2'', Str ''x''), (''1'', Str ''y'')]))
       None (TFunction (\<lambda>args log. (Inr (js_nth args 1), log @ [args]))) [] [] =
       Some (Inr (''1'' @ LF # ''2'' @ LF # ''b''),
             [[Str ''y'', Str ''1''], [Str ''x'', Str ''2''], [Num 1, Str ''b'']])"
    unfolding t [THEN conjunct2, THEN conjunct1] k2
    by (simp add: js_join_def map_index_def strip_linebreak_def js_nth_def startsWith_def)
  from a b c d g' o k show ?thesis by simp
qed

text \<open>
  Claim C6 as stated fails on the code. The key passed for an array is not the number of
  the index: for \<^verbatim>\<open>["a"]\<close> the body does not receive \<^verbatim>\<open>("a", 0)\<close>. And the keys of an object
  are not gone through in the order in which they were added: for
  \<^verbatim>\<open>{b: 1, 2: "x", 1: "y"}\<close> the calls are not those for \<^verbatim>\<open>b\<close>, \<^verbatim>\<open>2\<close>, \<^verbatim>\<open>1\<close> in this order.
\<close>

theorem loop_keys_are_strings_in_key_order:
  "yatte_loop (default_settings None) (IValue (Arr [Str ''a'']))
     None (TFunction (\<lambda>args log. (Inr (js_nth args 1), log @ [args]))) [] []
     \<noteq> Some (Inr ''0'', [[Str ''a'', Num 0]])
   \<and> yatte_loop (default_settings None)
       (IValue (Obj [(''b'', Num 1), (''2'', Str ''x''), (''1'', Str ''y'')]))
       None (TFunction (\<lambda>args log. (Inr (js_nth args 1), log @ [args]))) [] []
       \<noteq> Some (Inr (''b'' @ LF # ''2'' @ LF # ''1''),
               [[Num 1, Str ''b''], [Str ''x'', Str ''2''], [Str ''y'', Str ''1'']])"
proof -
  have k2: "own_keys (map fst [(''b'', Num 1), (''2'', Str ''x''), (''1'', Str ''y'')])
      = [''1'', ''2'', ''b'']"
    by code_simp
  have "yatte_loop (default_settings None) (IValue (Arr [Str ''a'']))
     None (TFunction (\<lambda>args log. (Inr (js_nth args 1), log @ [args]))) [] []
     = Some (Inr ''0'', [[Str ''a'', Str ''0'']])"
    by (simp add: yatte_loop_def classify_Arr fill_mapped_def js_join_def map_index_def
        strip_linebreak_def js_nth_def digits.simps startsWith_def)
  moreover have "yatte_loop (default_settings None)
       (IValue (Obj [(''b'', Num 1), (''2'', Str ''x''), (''1'', Str ''y'')]))
       None (TFunction (\<lambda>args log. (Inr (js_nth args 1), log @ [args]))) [] []
       = Some (Inr (''1'' @ LF # ''2'' @ LF # ''b''),
               [[Str ''y'', Str ''1''], [Str ''x'', Str ''2''], [Num 1, Str ''b'']])"
    unfolding yatte_loop_def classify_Obj k2
    by (simp add: fill_mapped_def js_join_def map_index_def strip_linebreak_def js_nth_def
        startsWith_def)
  ultimately show ?thesis by simp
qed

section \<open>Leading line breaks of the results\<close>

lemma length_map_index: "length (map_index f xs) = length xs"
  by (simp add: map_index_def)

lemma nth_map_index: "i < length xs \<Longrightarrow> map_index f xs ! i = f (xs ! i) i"
  by (simp add: map_index_def nth_enumerate_eq)

lemma strip_linebreak_first: "strip_linebreak v 0 = v"
  by (simp add: strip_linebreak_def split: jsval.splits)

lemma strip_linebreak_break: "0 < i \<Longrightarrow> strip_linebreak (Str (LF # t)) i = Str t"
  by (simp add: strip_linebreak_def startsWith_def substr_from_def)

lemma strip_linebreak_other: "\<forall>t. v \<noteq> Str (LF # t) \<Longrightarrow> strip_linebreak v i = v"
  by (auto simp: strip_linebreak_def startsWith_def split: jsval.splits list.splits)

text \<open>
  Claim C7. When the switch of the function mode has filled \<^verbatim>\<open>mapped\<close>, the loop returns the
  join of a list \<^verbatim>\<open>out\<close> of the same length: the first result is unchanged; a later
  result that is a string beginning with a line break has lost that one character; every
  result that is not such a string is unchanged.
\<close>

theorem loop_strips_one_leading_break:
  assumes "classify object = Inr (n, collection)"
    and "fill_mapped object n collection body s = Some (Inr mapped, s1)"
  shows "\<exists>out. yatte_loop cfg object sep (TFunction body) vals s =
             Some (Inr (js_join (case sep of None \<Rightarrow> [LF] | Some j \<Rightarrow> j) out), s1)
       \<and> length out = length mapped
       \<and> (mapped \<noteq> [] \<longrightarrow> out ! 0 = mapped ! 0)
       \<and> (\<forall>i t. 0 < i \<and> i < length mapped \<and> mapped ! i = Str (LF # t) \<longrightarrow> out ! i = Str t)
       \<and> (\<forall>i. i < length mapped \<and> (\<forall>t. mapped ! i \<noteq> Str (LF # t)) \<longrightarrow> out ! i = mapped ! i)"
proof (intro exI conjI)
  show "yatte_loop cfg object sep (TFunction body) vals s =
      Some (Inr (js_join (case sep of None \<Rightarrow> [LF] | Some j \<Rightarrow> j)
        (map_index strip_linebreak mapped)), s1)"
    using assms by (simp add: yatte_loop_def Let_def)
  show "length (map_index strip_linebreak mapped) = length mapped"
    by (rule length_map_index)
  show "mapped \<noteq> [] \<longrightarrow> map_index strip_linebreak mapped ! 0 = mapped ! 0"
    by (simp add: nth_map_index strip_linebreak_first)
  show "\<forall>i t. 0 < i \<and> i < length mapped \<and> mapped ! i = Str (LF # t)
      \<longrightarrow> map_index strip_linebreak mapped ! i = Str t"
    by (simp add: nth_map_index strip_linebreak_break)
  show "\<forall>i. i < length mapped \<and> (\<forall>t. mapped ! i \<noteq> Str (LF # t))
      \<longrightarrow> map_index strip_linebreak mapped ! i = mapped ! i"
    by (simp add: nth_map_index strip_linebreak_other)
qed

theorem loop_strips_one_leading_break_witness:
  "yatte_loop (default_settings None) (IValue (Num 3)) (Some ''-'')
     (TFunction (\<lambda>args s. (Inr (Str [LF, LF, CHR ''a'']), s))) [] () =
     Some (Inr ([LF, LF, CHR ''a''] @ ''-'' @ [LF, CHR ''a''] @ ''-'' @ [LF, CHR ''a'']), ())"
proof -
  let ?body = "\<lambda>(args :: jsval list) (s :: unit). (Inr (Str [LF, LF, CHR ''a'']) :: error + jsval, s)"
  let ?v = "Str [LF, LF, CHR ''a'']"
  have 1: "classify (IValue (Num 3) :: unit iterable) = Inr (3, [])"
    by (simp add: classify_def)
  have 2: "fill_mapped (IValue (Num 3)) 3 [] ?body () = Some (Inr [?v, ?v, ?v], ())"
    by (simp add: fill_mapped_def for_loop.simps)
  from loop_strips_one_leading_break [OF 1 2, of "default_settings None" "Some ''-''" "[]"]
  obtain out where
    r: "yatte_loop (default_settings None) (IValue (Num 3)) (Some ''-'') (TFunction ?body) [] () =
         Some (Inr (js_join ''-'' out), ())"
    and l: "length out = 3"
    and o0: "out ! 0 = ?v"
    and o: "\<forall>i t. 0 < i \<and> i < 3 \<and> [?v, ?v, ?v] ! i = Str (LF # t) \<longrightarrow> out ! i = Str t"
    by auto
  from o have "out ! Suc 0 = Str [LF, CHR ''a'']" and "out ! Suc (Suc 0) = Str [LF, CHR ''a'']"
    by simp_all
  with l o0 have "out = [?v, Str [LF, CHR ''a''], Str [LF, CHR ''a'']]"
    by (auto simp: list_eq_iff_nth_eq less_Suc_eq numeral_3_eq_3)
  with r show ?thesis by (simp add: js_join_def)
qed

section \<open>Values the normaliser cannot take\<close>

lemma dedent_segment_error: "dedent_segment indent vals result t i = Inl e \<Longrightarrow> e = TypeError"
  by (auto simp: dedent_segment_def dedent_value_def Let_def
      split: jsval.splits if_splits sum.splits elim: index0.elims)

lemma dedent_segment_Null:
  "js_nth vals i = Null \<Longrightarrow> dedent_segment indent vals result t i = Inl TypeError"
  by (simp add: dedent_segment_def dedent_value_def Let_def split: jsval.splits)

lemma dedent_segment_Arr_break:
  "js_nth vals i = Arr (Str [LF] # xs)
     \<Longrightarrow> dedent_segment indent vals result t i = Inl TypeError"
  by (simp add: dedent_segment_def dedent_value_def js_nth_def Let_def split: jsval.splits)

lemma dedent_forEach_throws:
  "k < length ts \<Longrightarrow> (\<And>result t. dedent_segment indent vals result t (i + k) = Inl TypeError)
     \<Longrightarrow> dedent_forEach indent vals ts i result = Inl TypeError"
proof (induction ts arbitrary: i k result)
  case Nil
  then show ?case by simp
next
  case (Cons t ts)
  show ?case
  proof (cases k)
    case 0
    with Cons.prems(2) [of result t] show ?thesis by simp
  next
    case (Suc k')
    with Cons.prems have "k' < length ts"
      and "\<And>result t. dedent_segment indent vals result t (Suc i + k') = Inl TypeError"
      by simp_all
    from Cons.IH [OF this] show ?thesis
      by (auto split: sum.splits dest: dedent_segment_error)
  qed
qed

text \<open>
  The part of claim C9 on \<^verbatim>\<open>null\<close>: the render throws when a value paired with a segment
  is \<^verbatim>\<open>null\<close>.
\<close>

lemma null_value_throws:
  assumes "indentation cfg" and "js_nth strings 0 = Str s0" and "startsWith s0 LF"
    and "i < length strings" and "js_nth vals i = Null"
  shows "yatte_do cfg (Arr strings) vals = Inl TypeError"
  using assms dedent_forEach_throws [of i strings _ vals 0] dedent_segment_Null [of vals i]
  by (simp add: yatte_do_def normalise_def dedent_def Let_def)


text \<open>
  Numbers and booleans do pass through unchanged.
\<close>

lemma dedent_value_number_boolean:
  "dedent_value split (Num n) = Inr (Num n)" "dedent_value split (Bool b) = Inr (Bool b)"
  by (simp_all add: dedent_value_def)

text \<open>
  Claim C9 on the code. With the normaliser at work, a value that is an array whose first
  element is the line break string is taken for a string that begins with a line break
  (line 70 has no test of the type) and \<^verbatim>\<open>values[i].split\<close> throws: such a value, neither a
  string nor \<^verbatim>\<open>null\<close> nor \<^verbatim>\<open>undefined\<close>, does not pass through.
\<close>

theorem array_value_starting_with_break_throws:
  assumes "indentation cfg" and "js_nth strings 0 = Str s0" and "startsWith s0 LF"
    and "i < length strings" and "js_nth vals i = Arr (Str [LF] # xs)"
  shows "yatte_do cfg (Arr strings) vals = Inl TypeError"
  using assms dedent_forEach_throws [of i strings _ vals 0]
    dedent_segment_Arr_break [of vals i xs]
  by (simp add: yatte_do_def normalise_def dedent_def Let_def)

theorem array_value_starting_with_break_throws_witness:
  "yatte_do (default_settings None) (Arr [Str [LF], Str []]) [Arr [Str [LF]]] = Inl TypeError"
proof -
  have 1: "indentation (default_settings None)" by (simp add: default_settings_def)
  have 2: "js_nth [Str [LF], Str []] 0 = Str [LF]" by (simp add: js_nth_def)
  have 3: "startsWith [LF] LF" by (simp add: startsWith_def)
  have 4: "0 < length [Str [LF], Str []]" by simp
  have 5: "js_nth [Arr [Str [LF]]] 0 = Arr (Str [LF] # [])" by (simp add: js_nth_def)
  show ?thesis by (rule array_value_starting_with_break_throws [OF 1 2 3 4 5])
qed


text \<open>
  With the normaliser switched off the same template renders.
\<close>

lemma array_value_without_normaliser:
  "yatte_do ((default_settings None)\<lparr>indentation := False\<rparr>) (Arr [Str [LF], Str []])
     [Arr [Str [LF]]] = Inr [LF, LF]"
  by (simp add: yatte_do_def normalise_def default_settings_def assemble_def js_nth_def
      js_last_def explicitTransformation_def lastToken_of_def search_def re_last_token_def
      is_space_def substr_from_def default_transform_def Let_def startsWith_def
      suffix_lookup_def object_prototype_functions_def)

end
